theory Spec2Isabelle
  imports Main "HOL-Library.Sublist"
begin

section \<open>JavaScript strings\<close>

text \<open>
  A JavaScript string is a sequence of UTF-16 code units. A code unit is modelled by its
  numeric value; no arithmetic is done on code units, they are only compared. Every
  character the converter tests for (Tibetan letters, the tsheg, the shad marks, white
  space) is a single code unit of the Basic Multilingual Plane.
\<close>

type_synonym codeunit = nat
type_synonym jsstring = "codeunit list"

definition ascii :: "string \<Rightarrow> jsstring" where
  "ascii s = map of_char s"

text \<open>
  The class \<open>\s\<close> of a regular expression and the characters removed by
  \<open>String.prototype.trim\<close> are the same set: WhiteSpace and LineTerminator of ECMAScript.
\<close>

definition isWhiteSpace :: "codeunit \<Rightarrow> bool" where
  "isWhiteSpace c \<longleftrightarrow>
     c = 0x9 \<or> c = 0xA \<or> c = 0xB \<or> c = 0xC \<or> c = 0xD \<or> c = 0x20 \<or> c = 0xA0 \<or>
     c = 0x1680 \<or> (0x2000 \<le> c \<and> c \<le> 0x200A) \<or> c = 0x2028 \<or> c = 0x2029 \<or>
     c = 0x202F \<or> c = 0x205F \<or> c = 0x3000 \<or> c = 0xFEFF"

definition trim :: "jsstring \<Rightarrow> jsstring" where
  "trim s = rev (dropWhile isWhiteSpace (rev (dropWhile isWhiteSpace s)))"

definition isHighSurrogate :: "codeunit \<Rightarrow> bool" where
  "isHighSurrogate c \<longleftrightarrow> 0xD800 \<le> c \<and> c \<le> 0xDBFF"

definition isLowSurrogate :: "codeunit \<Rightarrow> bool" where
  "isLowSurrogate c \<longleftrightarrow> 0xDC00 \<le> c \<and> c \<le> 0xDFFF"

text \<open>
  \<open>Array.from(s)\<close> iterates a string by code points: a high surrogate followed by a low
  surrogate is one element of two code units, every other code unit is an element of its
  own. Each element is again a string.
\<close>

fun arrayFrom :: "jsstring \<Rightarrow> jsstring list" where
  "arrayFrom [] = []"
| "arrayFrom [c] = [[c]]"
| "arrayFrom (h # l # cs) =
     (if isHighSurrogate h \<and> isLowSurrogate l then [h, l] # arrayFrom cs
      else [h] # arrayFrom (l # cs))"

text \<open>\<open>a.join(sep)\<close> of an array of strings.\<close>

fun joinWith :: "jsstring \<Rightarrow> jsstring list \<Rightarrow> jsstring" where
  "joinWith sep [] = []"
| "joinWith sep [x] = x"
| "joinWith sep (x # y # ys) = x @ sep @ joinWith sep (y # ys)"

section \<open>Core mappings (\<open>dzongkha_roman_converter_checked.js\<close>)\<close>

text \<open>
  Object literals are association lists in the order of the source, so that
  \<open>Object.keys\<close> is the list of first components; a property read is \<open>map_of\<close>.
  A property value used as a condition is true when the property exists and is not the
  empty string.
\<close>

definition truthyAt :: "(jsstring \<times> jsstring) list \<Rightarrow> jsstring \<Rightarrow> bool" where
  "truthyAt tbl k = (case map_of tbl k of Some v \<Rightarrow> v \<noteq> [] | None \<Rightarrow> False)"

text \<open>\<open>tbl[k] || d\<close>: the property when it exists and is not empty, else \<open>d\<close>.\<close>

definition lookupOr :: "(jsstring \<times> jsstring) list \<Rightarrow> jsstring \<Rightarrow> jsstring \<Rightarrow> jsstring" where
  "lookupOr tbl k d = (case map_of tbl k of Some v \<Rightarrow> if v \<noteq> [] then v else d | None \<Rightarrow> d)"

definition INITIAL_BASE :: "(jsstring \<times> jsstring) list" where
  "INITIAL_BASE =
    [([0x0F40], ascii ''k''), ([0x0F41], ascii ''kh''), ([0x0F42], ascii ''g''),
     ([0x0F44], ascii ''ng''), ([0x0F45], ascii ''c''), ([0x0F46], ascii ''ch''),
     ([0x0F47], ascii ''j''), ([0x0F49], ascii ''ny''),
     ([0x0F4F], ascii ''t''), ([0x0F50], ascii ''th''), ([0x0F51], ascii ''d''),
     ([0x0F53], ascii ''n''), ([0x0F54], ascii ''p''), ([0x0F55], ascii ''ph''),
     ([0x0F56], ascii ''b''), ([0x0F58], ascii ''m''),
     ([0x0F59], ascii ''ts''), ([0x0F5A], ascii ''tsh''), ([0x0F5B], ascii ''dz''),
     ([0x0F5D], ascii ''w''), ([0x0F5E], ascii ''zh''), ([0x0F5F], ascii ''z''),
     ([0x0F60], ascii ''a''), ([0x0F61], ascii ''y''),
     ([0x0F62], ascii ''r''), ([0x0F63], ascii ''l''), ([0x0F64], ascii ''sh''),
     ([0x0F66], ascii ''s''), ([0x0F67], ascii ''h''), ([0x0F68], ascii ''a'')]"

text \<open>The voiced set: ga, ja, da, ba, the two-letter strings bya and dra, zha, za.\<close>

definition DEVOICE_CANDIDATES :: "jsstring list" where
  "DEVOICE_CANDIDATES =
    [[0x0F42], [0x0F47], [0x0F51], [0x0F56], [0x0F56, 0x0FB1], [0x0F51, 0x0FB2],
     [0x0F5E], [0x0F5F]]"

definition VOWELS :: "(jsstring \<times> jsstring) list" where
  "VOWELS =
    [([], ascii ''a''), ([0x0F72], ascii ''i''), ([0x0F74], ascii ''u''),
     ([0x0F7A], ascii ''e''), ([0x0F7C], ascii ''o'')]"

definition LONG_MARK :: jsstring where
  "LONG_MARK = [0x0F71]"

definition FINAL_MAP :: "(jsstring \<times> jsstring) list" where
  "FINAL_MAP =
    [([0x0F40], ascii ''k''), ([0x0F4F], ascii ''t''), ([0x0F54], ascii ''p''),
     ([0x0F53], ascii ''n''), ([0x0F64], ascii ''sh''), ([0x0F63], ascii ''l''),
     ([0x0F62], ascii ''r''), ([0x0F44], ascii ''ng'')]"

definition PREFIX_SET :: "jsstring list" where
  "PREFIX_SET = [[0x0F42], [0x0F51], [0x0F56], [0x0F58], [0x0F60]]"

definition MEDIALS :: "(jsstring \<times> jsstring) list" where
  "MEDIALS = [([0x0FB1], ascii ''y''), ([0x0FAD], ascii ''w''), ([0x0FB2], ascii ''r'')]"

text \<open>
  An entry of \<open>CLUSTER_INITIAL_MAP\<close>; a flag the literal omits reads as false.
\<close>

record cluster =
  roman :: jsstring
  whole :: bool
  preferHard :: bool

definition CLUSTER_INITIAL_MAP :: "(jsstring \<times> cluster) list" where
  "CLUSTER_INITIAL_MAP =
    [([0x0F56, 0x0F62, 0x0F92, 0x0FB1],
        \<lparr>roman = ascii ''g'' @ [0xE4], whole = True, preferHard = False\<rparr>),
     ([0x0F56, 0x0F62, 0x0F92],
        \<lparr>roman = ascii ''g'', whole = False, preferHard = True\<rparr>),
     ([0x0F62, 0x0F92, 0x0FB1],
        \<lparr>roman = ascii ''gya'', whole = False, preferHard = True\<rparr>),
     ([0x0F42, 0x0FB1],
        \<lparr>roman = ascii ''j'', whole = False, preferHard = False\<rparr>),
     ([0x0F42, 0x0FB2],
        \<lparr>roman = ascii ''dr'', whole = False, preferHard = False\<rparr>),
     ([0x0F63, 0x0FB7],
        \<lparr>roman = ascii ''lh'', whole = False, preferHard = True\<rparr>),
     ([0x0F66, 0x0F92, 0x0FB2],
        \<lparr>roman = ascii ''dr'', whole = False, preferHard = True\<rparr>),
     ([0x0F66, 0x0FA6, 0x0FB1],
        \<lparr>roman = ascii ''bj'', whole = False, preferHard = True\<rparr>),
     ([0x0F66, 0x0FB3],
        \<lparr>roman = ascii ''l'', whole = False, preferHard = True\<rparr>)]"

section \<open>Exceptions\<close>

definition TSHEG :: jsstring where
  "TSHEG = [0x0F0B]"

text \<open>The class \<open>[shad, nyis shad, tsheg shad, ter tsheg, \s]\<close> of the two regular expressions.\<close>

definition isPunctOrSpace :: "codeunit \<Rightarrow> bool" where
  "isPunctOrSpace c \<longleftrightarrow>
     c = 0x0F0D \<or> c = 0x0F0E \<or> c = 0x0F0F \<or> c = 0x0F14 \<or> isWhiteSpace c"

definition normalizeKey :: "jsstring \<Rightarrow> jsstring" where
  "normalizeKey s =
     (if s = [] then s
      else trim (filter (\<lambda>c. \<not> isPunctOrSpace c) (filter (\<lambda>c. c \<noteq> 0x0F0B) s)))"

definition addException ::
  "jsstring \<Rightarrow> jsstring \<Rightarrow> (jsstring \<rightharpoonup> jsstring) \<Rightarrow> (jsstring \<rightharpoonup> jsstring)" where
  "addException uScript rom exc = exc(normalizeKey uScript \<mapsto> rom)"

text \<open>The calls of \<open>addException\<close>, in the order of the source.\<close>

definition EXCEPTION_CALLS :: "(jsstring \<times> jsstring) list" where
  "EXCEPTION_CALLS =
    [([0x0F56, 0x0F62, 0x0F92, 0x0FB1, 0x0F51], ascii ''g'' @ [0xE4]),
     ([0x0F62, 0x0F92, 0x0F66, 0x0F54], ascii ''gep''),
     ([0x0F66, 0x0F90, 0x0F74], ascii ''ku''),
     ([0x0F40, 0x0F74, 0x0F5D], ascii ''k'' @ [0xFB]),
     ([0x0F40, 0x0F7A, 0x0F54], ascii ''kep''),
     ([0x0F62, 0x0F92, 0x0F7A, 0x0F53], ascii ''gen''),
     ([0x0F62, 0x0F92, 0x0F7A, 0x0F54], ascii ''gep''),
     ([0x0F62, 0x0F92, 0x0F7C, 0x0F54], ascii ''gop''),
     ([0x0F40, 0x0FB2, 0x0F7C], ascii ''tro''),
     ([0x0F66, 0x0FB3, 0x0F7C, 0x0F66, 0x0F0B, 0x0F62, 0x0FA6, 0x0F7C, 0x0F66],
        [0x2019] @ ascii ''l'' @ [0xF6] @ ascii ''b'' @ [0xF6]),
     ([0x0F56, 0x0F40, 0x0FB2, 0x0F0B, 0x0F64, 0x0F72, 0x0F66], ascii ''Trashi''),
     ([0x0F56, 0x0F5F, 0x0F7C, 0x0F0B, 0x0F62, 0x0F72, 0x0F42], ascii ''Zori''),
     ([0x0F56, 0x0F5F, 0x0F44, 0x0F0B, 0x0F60, 0x0F56, 0x0FB2, 0x0F7A, 0x0F63],
        ascii ''zangdre''),
     ([0x0F61, 0x0F62, 0x0F0B, 0x0F60, 0x0F51, 0x0FB2, 0x0F7A, 0x0F53],
        ascii ''y'' @ [0xE2] @ ascii ''dren''),
     ([0x0F62, 0x0F92, 0x0FB1, 0x0F63, 0x0F0B, 0x0F58, 0x0F5A, 0x0F53],
        ascii ''g'' @ [0xE4] @ ascii ''tshe''),
     ([0x0F46, 0x0F7C, 0x0F66, 0x0F0B, 0x0F66, 0x0F92, 0x0FB2],
        ascii ''Ch'' @ [0xF6] @ ascii ''dra''),
     ([0x0F62, 0x0FA3, 0x0F58, 0x0F0B, 0x0F62, 0x0F92, 0x0F74, 0x0F66, 0x0F44],
        [0x27] @ ascii ''namg'' @ [0xFC] @ ascii ''ng'')]"

definition EXCEPTIONS :: "jsstring \<rightharpoonup> jsstring" where
  "EXCEPTIONS = fold (\<lambda>(uScript, rom). addException uScript rom) EXCEPTION_CALLS Map.empty"

section \<open>Utility helpers\<close>

definition normToken :: "jsstring \<Rightarrow> jsstring" where
  "normToken t = normalizeKey t"

text \<open>
  \<open>Object.keys(CLUSTER_INITIAL_MAP).sort((a,b) => b.length - a.length)\<close>: a stable sort,
  longer keys first. \<open>s.includes(k)\<close> is the substring test.
\<close>

definition clusterKeys :: "jsstring list" where
  "clusterKeys = sort_key (\<lambda>k. - int (length k)) (map fst CLUSTER_INITIAL_MAP)"

definition findClusterMap :: "jsstring \<Rightarrow> cluster option" where
  "findClusterMap s =
     (case find (\<lambda>k. sublist k s) clusterKeys of
        Some k \<Rightarrow> map_of CLUSTER_INITIAL_MAP k
      | None \<Rightarrow> None)"

record decomposition =
  baseInitial :: "jsstring option"
  vowelSign :: jsstring
  longMark :: bool
  hasPrefix :: bool
  medialsFound :: "jsstring list"
  finalChar :: "jsstring option"
  rawChars :: jsstring

text \<open>
  The filter of the first line of \<open>decomposeSyllableRaw\<close>: an element is kept when it is
  not the tsheg and the class \<open>[\s, shad marks]\<close> matches nowhere in it.
\<close>

definition syllableChars :: "jsstring \<Rightarrow> jsstring list" where
  "syllableChars syll =
     filter (\<lambda>ch. ch \<noteq> TSHEG \<and> \<not> list_ex isPunctOrSpace ch) (arrayFrom syll)"

text \<open>
  The loop over \<open>Object.keys(VOWELS)\<close>: the first non-empty key, in the order of the
  table, that the array includes; its first occurrence is spliced out.
\<close>

definition findVowelSign :: "jsstring list \<Rightarrow> jsstring \<times> jsstring list" where
  "findVowelSign cleaned =
     (case find (\<lambda>v. v \<noteq> [] \<and> v \<in> set cleaned) (map fst VOWELS) of
        Some v \<Rightarrow> (v, remove1 v cleaned)
      | None \<Rightarrow> ([], cleaned))"

definition decomposeSyllableRaw :: "jsstring \<Rightarrow> decomposition" where
  "decomposeSyllableRaw syll =
     (let chars = syllableChars syll;
          lm = LONG_MARK \<in> set chars;
          (vs, cleaned) = findVowelSign (filter (\<lambda>ch. ch \<noteq> LONG_MARK) chars)
      in \<lparr>baseInitial = find (truthyAt INITIAL_BASE) cleaned,
          vowelSign = vs,
          longMark = lm,
          hasPrefix = list_ex (\<lambda>ch. ch \<in> set PREFIX_SET) (butlast cleaned),
          medialsFound =
            List.map_filter (\<lambda>ch. if truthyAt MEDIALS ch then map_of MEDIALS ch else None)
              cleaned,
          finalChar = find (truthyAt FINAL_MAP) (rev cleaned),
          rawChars = concat chars\<rparr>)"

section \<open>Conversion primitives\<close>

text \<open>
  The stages of \<open>convertSyllable\<close> after the decomposition, in the order of the source.
  The cluster hint replaces the initial and, when it prefers the hard form, sets
  \<open>comp.hasPrefix\<close>.
\<close>

definition wholeHint :: "cluster option \<Rightarrow> bool" where
  "wholeHint clmap = (case clmap of Some c \<Rightarrow> whole c | None \<Rightarrow> False)"

definition hintRoman :: "cluster option \<Rightarrow> jsstring" where
  "hintRoman clmap = (case clmap of Some c \<Rightarrow> roman c | None \<Rightarrow> [])"

definition isPartialHint :: "cluster option \<Rightarrow> bool" where
  "isPartialHint clmap \<longleftrightarrow> clmap \<noteq> None \<and> hintRoman clmap \<noteq> [] \<and> \<not> wholeHint clmap"

definition hardOverride :: "cluster option \<Rightarrow> bool" where
  "hardOverride clmap \<longleftrightarrow>
     isPartialHint clmap \<and> (case clmap of Some c \<Rightarrow> preferHard c | None \<Rightarrow> False)"

definition initialRomanOf :: "jsstring \<Rightarrow> cluster option \<Rightarrow> jsstring" where
  "initialRomanOf bi clmap =
     (if isPartialHint clmap then hintRoman clmap else lookupOr INITIAL_BASE bi bi)"

definition devoice :: "bool \<Rightarrow> jsstring \<Rightarrow> jsstring \<Rightarrow> jsstring" where
  "devoice hp bi initialRoman =
     (if \<not> hp \<and> bi \<in> set DEVOICE_CANDIDATES
      then (if \<not> suffix [0x27] initialRoman then initialRoman @ [0x27] else initialRoman)
      else initialRoman)"

definition appendMedials :: "jsstring \<Rightarrow> jsstring list \<Rightarrow> jsstring" where
  "appendMedials initialRoman ms =
     foldl (\<lambda>ini m. if \<not> suffix m ini then ini @ m else ini) initialRoman ms"

definition circ :: "(jsstring \<times> jsstring) list" where
  "circ = [(ascii ''a'', [0xE2]), (ascii ''e'', [0xEA]), (ascii ''i'', [0xEE]),
           (ascii ''o'', [0xF4]), (ascii ''u'', [0xFB])]"

definition vowelRomanOf :: "jsstring \<Rightarrow> bool \<Rightarrow> jsstring option \<Rightarrow> jsstring" where
  "vowelRomanOf vs lm fc =
     (let vowelRoman = lookupOr VOWELS vs (ascii ''a'');
          finalIsNg = (fc = Some [0x0F44])
      in if lm \<and> \<not> finalIsNg then lookupOr circ vowelRoman vowelRoman else vowelRoman)"

definition finalRomanOf :: "jsstring option \<Rightarrow> jsstring" where
  "finalRomanOf fc =
     (case fc of
        Some f \<Rightarrow> if f \<noteq> [] then lookupOr FINAL_MAP f [] else []
      | None \<Rightarrow> [])"

definition ruleConvert :: "cluster option \<Rightarrow> decomposition \<Rightarrow> jsstring \<Rightarrow> jsstring" where
  "ruleConvert clmap dec bi =
     (let initialRoman = initialRomanOf bi clmap;
          hp = (hasPrefix dec \<or> hardOverride clmap);
          initialRoman = devoice hp bi initialRoman;
          initialRoman = appendMedials initialRoman (medialsFound dec)
      in initialRoman @ vowelRomanOf (vowelSign dec) (longMark dec) (finalChar dec)
           @ finalRomanOf (finalChar dec))"

definition convertSyllable :: "jsstring \<Rightarrow> jsstring" where
  "convertSyllable syll =
     (if syll = [] then []
      else let raw = trim syll in
        if raw = [] then []
        else let normalized = normToken raw in
          case EXCEPTIONS normalized of
            Some v \<Rightarrow> v
          | None \<Rightarrow>
              let clmap = findClusterMap raw in
              if wholeHint clmap then hintRoman clmap
              else let dec = decomposeSyllableRaw raw in
                case baseInitial dec of
                  None \<Rightarrow> (if normalized \<noteq> [] then normalized else raw)
                | Some bi \<Rightarrow> ruleConvert clmap dec bi)"

section \<open>Multi-token conversion\<close>

text \<open>
  \<open>trimmed.split\<close> on one or more code units of the class of white space and the
  tsheg: the pieces between the maximal runs of separators. The flag says that the scan
  is inside a run; \<open>cur\<close> is the piece read so far.
\<close>

definition isSeparator :: "codeunit \<Rightarrow> bool" where
  "isSeparator c \<longleftrightarrow> isWhiteSpace c \<or> c = 0x0F0B"

fun splitRuns :: "bool \<Rightarrow> jsstring \<Rightarrow> jsstring \<Rightarrow> jsstring list" where
  "splitRuns inRun cur [] = [cur]"
| "splitRuns inRun cur (c # cs) =
     (if isSeparator c
      then (if inRun then splitRuns True cur cs else cur # splitRuns True [] cs)
      else splitRuns False (cur @ [c]) cs)"

definition tokenize :: "jsstring \<Rightarrow> jsstring list" where
  "tokenize trimmed = filter (\<lambda>t. t \<noteq> []) (splitRuns False [] trimmed)"

text \<open>
  The inner loop over the widths 3 and 2: the exception of the joined window, when the
  window fits and its normalized text is a key.
\<close>

definition tryWindow :: "jsstring list \<Rightarrow> nat \<Rightarrow> nat \<Rightarrow> jsstring option" where
  "tryWindow rawTokens i w =
     (if i + w \<le> length rawTokens
      then EXCEPTIONS (normalizeKey (concat (take w (drop i rawTokens))))
      else None)"

definition windowMatch :: "jsstring list \<Rightarrow> nat \<Rightarrow> (jsstring \<times> nat) option" where
  "windowMatch rawTokens i =
     (case tryWindow rawTokens i 3 of
        Some v \<Rightarrow> Some (v, 3)
      | None \<Rightarrow> (case tryWindow rawTokens i 2 of Some v \<Rightarrow> Some (v, 2) | None \<Rightarrow> None))"

lemma windowMatch_width: "windowMatch rawTokens i = Some (v, w) \<Longrightarrow> w = 3 \<or> w = 2"
  by (auto simp: windowMatch_def split: option.splits)

text \<open>The outer loop: the state is the cursor \<open>i\<close> and the array \<open>out\<close>.\<close>

function tokenLoop :: "jsstring list \<Rightarrow> nat \<Rightarrow> jsstring list \<Rightarrow> jsstring list" where
  "tokenLoop rawTokens i out =
     (if i < length rawTokens
      then (case windowMatch rawTokens i of
              Some (v, w) \<Rightarrow> tokenLoop rawTokens (i + w) (out @ [v])
            | None \<Rightarrow> tokenLoop rawTokens (i + 1) (out @ [convertSyllable (rawTokens ! i)]))
      else out)"
  by pat_completeness auto
termination
  by (relation "measure (\<lambda>(rawTokens, i, out). length rawTokens - i)")
     (auto dest: windowMatch_width)

declare tokenLoop.simps [simp del]

definition convertDzongkhaText :: "jsstring \<Rightarrow> jsstring" where
  "convertDzongkhaText input =
     (if input = [] then []
      else let trimmed = trim input in
        if trimmed = [] then []
        else (case EXCEPTIONS (normalizeKey trimmed) of
                Some v \<Rightarrow> v
              | None \<Rightarrow> joinWith [0x20] (tokenLoop (tokenize trimmed) 0 [])))"

section \<open>The variant with dictionary and rules (\<open>Test.js\<close>, \<open>convertDzongkha\<close>)\<close>

text \<open>
  The third script of \<open>Test.js\<close> builds a raw Roman word per syllable and normalizes
  it by a dictionary and by rewriting rules. Its constant for the tsheg is the one above.
\<close>

definition ROOT :: "(jsstring \<times> jsstring) list" where
  "ROOT =
    [([0x0F40], ascii ''k''), ([0x0F41], ascii ''kh''), ([0x0F42], ascii ''g''),
     ([0x0F44], ascii ''ng''),
     ([0x0F45], ascii ''c''), ([0x0F46], ascii ''ch''), ([0x0F47], ascii ''j''),
     ([0x0F49], ascii ''ny''),
     ([0x0F4F], ascii ''t''), ([0x0F50], ascii ''th''), ([0x0F51], ascii ''d''),
     ([0x0F53], ascii ''n''),
     ([0x0F54], ascii ''p''), ([0x0F55], ascii ''ph''), ([0x0F56], ascii ''b''),
     ([0x0F58], ascii ''m''),
     ([0x0F59], ascii ''ts''), ([0x0F5A], ascii ''tsh''), ([0x0F5B], ascii ''dz''),
     ([0x0F5D], ascii ''w''), ([0x0F5E], ascii ''zh''), ([0x0F5F], ascii ''z''),
     ([0x0F60], [0x2019]), ([0x0F61], ascii ''y''), ([0x0F62], ascii ''r''),
     ([0x0F63], ascii ''l''), ([0x0F64], ascii ''sh''), ([0x0F66], ascii ''s''),
     ([0x0F67], ascii ''h''),
     ([0x0F68], ascii ''a'')]"

definition SUB :: "(jsstring \<times> jsstring) list" where
  "SUB =
    [([0x0F90], ascii ''k''), ([0x0F91], ascii ''kh''), ([0x0F92], ascii ''g''),
     ([0x0F94], ascii ''ng''),
     ([0x0F95], ascii ''c''), ([0x0F96], ascii ''ch''), ([0x0F97], ascii ''j''),
     ([0x0F99], ascii ''ny''),
     ([0x0F9F], ascii ''t''), ([0x0FA0], ascii ''th''), ([0x0FA1], ascii ''d''),
     ([0x0FA3], ascii ''n''),
     ([0x0FA4], ascii ''p''), ([0x0FA5], ascii ''ph''), ([0x0FA6], ascii ''b''),
     ([0x0FA8], ascii ''m''),
     ([0x0FA9], ascii ''ts''), ([0x0FAA], ascii ''tsh''), ([0x0FAB], ascii ''dz''),
     ([0x0FAD], ascii ''w''), ([0x0FB1], ascii ''y''), ([0x0FB2], ascii ''r''),
     ([0x0FB3], ascii ''l''), ([0x0FB4], ascii ''sh''), ([0x0FB6], ascii ''s''),
     ([0x0FB7], ascii ''h'')]"

definition VOWEL :: "(jsstring \<times> jsstring) list" where
  "VOWEL =
    [([], ascii ''a''), ([0x0F72], ascii ''i''), ([0x0F74], ascii ''u''),
     ([0x0F7A], ascii ''e''), ([0x0F7C], ascii ''o''), ([0x0F71], [0xE2]),
     ([0x0F7B], ascii ''ai''), ([0x0F7D], ascii ''au'')]"

definition FINAL :: "(jsstring \<times> jsstring) list" where
  "FINAL =
    [([0x0F42], ascii ''g''), ([0x0F44], ascii ''ng''), ([0x0F51], ascii ''d''),
     ([0x0F53], ascii ''n''), ([0x0F56], ascii ''b''), ([0x0F58], ascii ''m''),
     ([0x0F60], [0x2019]), ([0x0F62], ascii ''r''), ([0x0F63], ascii ''l''),
     ([0x0F66], ascii ''s'')]"

definition TSEC :: codeunit where "TSEC = 0x0F0C"
definition SHAD :: codeunit where "SHAD = 0x0F0D"
definition NYIS :: codeunit where "NYIS = 0x0F0E"

text \<open>
  \<open>s.split(sep)\<close> for a separator that matches single code units: every separator
  ends a piece, so the empty string gives one empty piece.
\<close>

fun splitAt :: "(codeunit \<Rightarrow> bool) \<Rightarrow> jsstring \<Rightarrow> jsstring \<Rightarrow> jsstring list" where
  "splitAt isSep cur [] = [cur]"
| "splitAt isSep cur (c # cs) =
     (if isSep c then cur # splitAt isSep [] cs else splitAt isSep (cur @ [c]) cs)"

definition splitSyllables :: "jsstring \<Rightarrow> jsstring list" where
  "splitSyllables line = splitAt (\<lambda>c. c = 0x0F0B) [] line"

record syllableToken =
  head :: jsstring
  stacks :: "jsstring list"
  vowels :: "jsstring list"
  finals :: "jsstring list"
  rest :: "jsstring list"

text \<open>The loop of \<open>tokenizeSyllable\<close> over the characters after the first.\<close>

fun classifyChars :: "jsstring list \<Rightarrow> syllableToken \<Rightarrow> syllableToken" where
  "classifyChars [] token = token"
| "classifyChars (ch # chs) token =
     classifyChars chs
       (if truthyAt SUB ch then token\<lparr>stacks := stacks token @ [ch]\<rparr>
        else if truthyAt VOWEL ch then token\<lparr>vowels := vowels token @ [ch]\<rparr>
        else if truthyAt FINAL ch then token\<lparr>finals := finals token @ [ch]\<rparr>
        else token\<lparr>rest := rest token @ [ch]\<rparr>)"

definition tokenizeSyllable :: "jsstring \<Rightarrow> syllableToken" where
  "tokenizeSyllable syl =
     (let token = \<lparr>head = [], stacks = [], vowels = [], finals = [], rest = []\<rparr>
      in case arrayFrom syl of
           [] \<Rightarrow> token
         | first # chs \<Rightarrow>
             classifyChars chs
               (if truthyAt ROOT first then token\<lparr>head := first\<rparr>
                else token\<lparr>rest := [first]\<rparr>))"

text \<open>
  \<open>buildRomanFromToken\<close>. The head, the stacks, the vowels and the finals are keys of
  their tables, so each read of a table finds a string.
\<close>

definition endsWithVowelLetter :: "jsstring \<Rightarrow> bool" where
  "endsWithVowelLetter rom \<longleftrightarrow>
     rom \<noteq> [] \<and> last rom \<in> set (ascii ''aeiou'' @ [0xE2])"

definition buildRomanFromToken :: "syllableToken \<Rightarrow> jsstring" where
  "buildRomanFromToken token =
     (let rom = (if head token \<noteq> [] then lookupOr ROOT (head token) [] else []);
          rom = foldl (\<lambda>rom s. rom @ lookupOr SUB s []) rom (stacks token);
          rom = foldl (\<lambda>rom v. (if suffix (ascii ''a'') rom then butlast rom else rom)
                               @ lookupOr VOWEL v [])
                  rom (vowels token);
          vowelApplied = (vowels token \<noteq> []);
          rom = foldl (\<lambda>rom f. rom @ lookupOr FINAL f []) rom (finals token)
      in if \<not> vowelApplied \<and> \<not> endsWithVowelLetter rom then rom @ ascii ''a'' else rom)"

definition DICT :: "(jsstring \<times> jsstring) list" where
  "DICT =
    [(ascii ''brgyad'', ascii ''g'' @ [0xE4]),
     (ascii ''sdod'', ascii ''d'' @ [0xF6]),
     (ascii ''hbah'', ascii ''ba''),
     (ascii ''dkar'', ascii ''k'' @ [0xE2]),
     (ascii ''dkarpo'', ascii ''k'' @ [0xE2] @ ascii ''p''),
     (ascii ''bzlogthabs'', ascii ''dokthap''),
     ([0x2019] @ ascii ''brug'', [0x2019] @ ascii ''druk'')]"

text \<open>
  The forms of \<open>w.replace\<close> in \<open>applyRules\<close>: a pattern anchored at the start, one
  anchored at both ends, one anchored at the end, and the global replacement of every
  run of two or more right single quotation marks by one.
\<close>

definition replaceStart :: "jsstring \<Rightarrow> jsstring \<Rightarrow> jsstring \<Rightarrow> jsstring" where
  "replaceStart pat rep w = (if prefix pat w then rep @ drop (length pat) w else w)"

definition replaceWhole :: "jsstring \<Rightarrow> jsstring \<Rightarrow> jsstring \<Rightarrow> jsstring" where
  "replaceWhole pat rep w = (if w = pat then rep else w)"

definition replaceEnd :: "jsstring \<Rightarrow> jsstring \<Rightarrow> jsstring \<Rightarrow> jsstring" where
  "replaceEnd pat rep w = (if suffix pat w then take (length w - length pat) w @ rep else w)"

fun collapseQuotes :: "jsstring \<Rightarrow> jsstring" where
  "collapseQuotes (a # b # cs) =
     (if a = 0x2019 \<and> b = 0x2019 then collapseQuotes (b # cs) else a # collapseQuotes (b # cs))"
| "collapseQuotes cs = cs"

definition applyRules :: "jsstring \<Rightarrow> jsstring" where
  "applyRules word =
     (let w = replaceStart (ascii ''dk'') (ascii ''k'') word;
          w = replaceStart (ascii ''dg'') (ascii ''g'') w;
          w = replaceStart (ascii ''bz'') (ascii ''z'') w;
          w = replaceStart (ascii ''bzh'') (ascii ''zh'') w;
          w = replaceStart (ascii ''bdz'') (ascii ''dz'') w;
          w = replaceStart (ascii ''sd'') (ascii ''d'') w;
          w = replaceStart (ascii ''hb'') (ascii ''b'') w;
          w = replaceWhole ([0x2019] @ ascii ''brug'') ([0x2019] @ ascii ''druk'') w;
          w = replaceEnd (ascii ''bo'') (ascii ''po'') w
      in collapseQuotes w)"

definition normalizeWord :: "jsstring \<Rightarrow> jsstring" where
  "normalizeWord word = (if truthyAt DICT word then lookupOr DICT word [] else applyRules word)"

text \<open>\<open>replace(/\s+/g, " ")\<close>: every run of white space becomes one space.\<close>

fun collapseSpaces :: "bool \<Rightarrow> jsstring \<Rightarrow> jsstring" where
  "collapseSpaces inRun [] = []"
| "collapseSpaces inRun (c # cs) =
     (if isWhiteSpace c then (if inRun then collapseSpaces True cs else 0x20 # collapseSpaces True cs)
      else c # collapseSpaces False cs)"

definition convertLine :: "jsstring \<Rightarrow> jsstring" where
  "convertLine line =
     (let syls = splitSyllables line;
          rawSyls = map (\<lambda>syl. if syl = [] then [] else buildRomanFromToken (tokenizeSyllable syl))
                      syls;
          rom = trim (collapseSpaces False (joinWith [0x20] rawSyls));
          tokens = map normalizeWord (splitAt (\<lambda>c. c = 0x20) [] rom)
      in joinWith [0x20] tokens)"

text \<open>
  \<open>replace(/\s+\./g, ".")\<close>: a run of white space directly before a full stop is
  removed; \<open>pend\<close> is the run read so far.
\<close>

fun dropSpaceBeforeDot :: "jsstring \<Rightarrow> jsstring \<Rightarrow> jsstring" where
  "dropSpaceBeforeDot pend [] = pend"
| "dropSpaceBeforeDot pend (c # cs) =
     (if isWhiteSpace c then dropSpaceBeforeDot (pend @ [c]) cs
      else if c = 0x2E \<and> pend \<noteq> [] then 0x2E # dropSpaceBeforeDot [] cs
      else pend @ c # dropSpaceBeforeDot [] cs)"

text \<open>
  \<open>replace(/\.\s+\./g, ".")\<close>: a full stop, white space and a full stop become one
  full stop, and the scan continues after the match. The state is the full stop and the
  white space read so far, if any.
\<close>

fun mergeDots :: "jsstring option \<Rightarrow> jsstring \<Rightarrow> jsstring" where
  "mergeDots None [] = []"
| "mergeDots (Some pend) [] = 0x2E # pend"
| "mergeDots None (c # cs) =
     (if c = 0x2E then mergeDots (Some []) cs else c # mergeDots None cs)"
| "mergeDots (Some pend) (c # cs) =
     (if isWhiteSpace c then mergeDots (Some (pend @ [c])) cs
      else if c = 0x2E \<and> pend \<noteq> [] then 0x2E # mergeDots None cs
      else if c = 0x2E then 0x2E # mergeDots (Some []) cs
      else 0x2E # pend @ c # mergeDots None cs)"

text \<open>
  The second loop of \<open>convertDzongkha\<close>, which builds the result; the first loop only
  fills arrays that are not read again. \<open>text[cursor]\<close> past the end is undefined.
\<close>

fun reinsertMarks :: "jsstring \<Rightarrow> jsstring list \<Rightarrow> nat \<Rightarrow> jsstring \<Rightarrow> jsstring" where
  "reinsertMarks txt [] cursor out = out"
| "reinsertMarks txt (part # parts) cursor out =
     (let out = out @ convertLine part;
          cursor = cursor + length part;
          nextChar = (if cursor < length txt then Some (txt ! cursor) else None);
          out = (if nextChar = Some SHAD then out @ ascii ''. '' else out);
          out = (if nextChar = Some NYIS then out @ ascii ''. '' else out);
          out = (if nextChar = Some TSEC then out @ ascii '' '' else out);
          cursor = cursor +
            (if nextChar = Some SHAD \<or> nextChar = Some NYIS \<or> nextChar = Some TSEC then 1 else 0)
      in reinsertMarks txt parts cursor out)"

definition convertDzongkha :: "jsstring \<Rightarrow> jsstring" where
  "convertDzongkha txt =
     (let parts = splitAt (\<lambda>c. c = SHAD \<or> c = NYIS) [] txt;
          out = reinsertMarks txt parts 0 []
      in mergeDots None (dropSpaceBeforeDot [] (trim out)))"

section \<open>The extended converter (first script of \<open>Test.js\<close>)\<close>

text \<open>
  The first script of \<open>Test.js\<close> keeps a hard and a soft form for every initial and
  chooses between them; it has no cluster table. Its long-mark constant and the table
  of circumflexed vowels inside its \<open>convertSyllable\<close> are those of the script above.
  Names that the script shares with the one above carry a prime.
\<close>

record initialForms =
  hard :: jsstring
  soft :: jsstring

definition initialMap :: "(jsstring \<times> initialForms) list" where
  "initialMap =
    [([0x0F40], \<lparr>hard = ascii ''k'', soft = ascii ''k''\<rparr>),
     ([0x0F41], \<lparr>hard = ascii ''kh'', soft = ascii ''kh''\<rparr>),
     ([0x0F42], \<lparr>hard = ascii ''g'', soft = ascii ''g'' @ [0x27]\<rparr>),
     ([0x0F44], \<lparr>hard = ascii ''ng'', soft = ascii ''ng''\<rparr>),
     ([0x0F45], \<lparr>hard = ascii ''c'', soft = ascii ''c''\<rparr>),
     ([0x0F46], \<lparr>hard = ascii ''ch'', soft = ascii ''ch''\<rparr>),
     ([0x0F47], \<lparr>hard = ascii ''j'', soft = ascii ''j'' @ [0x27]\<rparr>),
     ([0x0F49], \<lparr>hard = ascii ''ny'', soft = ascii ''ny''\<rparr>),
     ([0x0F4F], \<lparr>hard = ascii ''t'', soft = ascii ''t''\<rparr>),
     ([0x0F50], \<lparr>hard = ascii ''th'', soft = ascii ''th''\<rparr>),
     ([0x0F51], \<lparr>hard = ascii ''d'', soft = ascii ''d'' @ [0x27]\<rparr>),
     ([0x0F53], \<lparr>hard = ascii ''n'', soft = ascii ''n''\<rparr>),
     ([0x0F54], \<lparr>hard = ascii ''p'', soft = ascii ''p''\<rparr>),
     ([0x0F55], \<lparr>hard = ascii ''ph'', soft = ascii ''ph''\<rparr>),
     ([0x0F56], \<lparr>hard = ascii ''b'', soft = ascii ''b'' @ [0x27]\<rparr>),
     ([0x0F58], \<lparr>hard = ascii ''m'', soft = ascii ''m''\<rparr>),
     ([0x0F59], \<lparr>hard = ascii ''ts'', soft = ascii ''ts''\<rparr>),
     ([0x0F5A], \<lparr>hard = ascii ''tsh'', soft = ascii ''tsh''\<rparr>),
     ([0x0F5B], \<lparr>hard = ascii ''dz'', soft = ascii ''dz''\<rparr>),
     ([0x0F5D], \<lparr>hard = ascii ''w'', soft = ascii ''w''\<rparr>),
     ([0x0F5E], \<lparr>hard = ascii ''zh'', soft = ascii ''zh'' @ [0x27]\<rparr>),
     ([0x0F5F], \<lparr>hard = ascii ''z'', soft = ascii ''z'' @ [0x27]\<rparr>),
     ([0x0F60], \<lparr>hard = ascii ''a'', soft = ascii ''a''\<rparr>),
     ([0x0F61], \<lparr>hard = ascii ''y'', soft = ascii ''y''\<rparr>),
     ([0x0F62], \<lparr>hard = ascii ''r'', soft = ascii ''r''\<rparr>),
     ([0x0F63], \<lparr>hard = ascii ''l'', soft = ascii ''l''\<rparr>),
     ([0x0F64], \<lparr>hard = ascii ''sh'', soft = ascii ''sh''\<rparr>),
     ([0x0F66], \<lparr>hard = ascii ''s'', soft = ascii ''s''\<rparr>),
     ([0x0F67], \<lparr>hard = ascii ''h'', soft = ascii ''h''\<rparr>),
     ([0x0F68], \<lparr>hard = ascii ''a'', soft = ascii ''a''\<rparr>)]"

definition vowelSigns :: "(jsstring \<times> jsstring) list" where
  "vowelSigns =
    [([], ascii ''a''), ([0x0F72], ascii ''i''), ([0x0F74], ascii ''u''),
     ([0x0F7A], ascii ''e''), ([0x0F7C], ascii ''o'')]"

definition prefixChars :: "jsstring list" where
  "prefixChars = [[0x0F42], [0x0F51], [0x0F56], [0x0F58], [0x0F60]]"

text \<open>The subjoined letters: every code point from U+0F90 to U+0FB8.\<close>

definition subjoinedChars :: "jsstring list" where
  "subjoinedChars =
    [[0x0F90], [0x0F91], [0x0F92], [0x0F93], [0x0F94], [0x0F95], [0x0F96], [0x0F97],
     [0x0F98], [0x0F99], [0x0F9A], [0x0F9B], [0x0F9C], [0x0F9D], [0x0F9E], [0x0F9F],
     [0x0FA0], [0x0FA1], [0x0FA2], [0x0FA3], [0x0FA4], [0x0FA5], [0x0FA6], [0x0FA7],
     [0x0FA8], [0x0FA9], [0x0FAA], [0x0FAB], [0x0FAC], [0x0FAD], [0x0FAE], [0x0FAF],
     [0x0FB0], [0x0FB1], [0x0FB2], [0x0FB3], [0x0FB4], [0x0FB5], [0x0FB6], [0x0FB7],
     [0x0FB8]]"

definition finalMap :: "(jsstring \<times> jsstring) list" where
  "finalMap =
    [([0x0F40], ascii ''k''), ([0x0F4F], ascii ''t''), ([0x0F54], ascii ''p''),
     ([0x0F53], ascii ''n''), ([0x0F64], ascii ''sh''), ([0x0F63], ascii ''l''),
     ([0x0F62], ascii ''r''), ([0x0F44], ascii ''ng'')]"

definition exceptions :: "(jsstring \<times> jsstring) list" where
  "exceptions =
    [([0x0F56, 0x0F62, 0x0F92, 0x0FB1, 0x0F51], ascii ''g'' @ [0xE4]),
     ([0x0F62, 0x0FA8, 0x0F42, 0x0F54], [0x27] @ ascii ''map''),
     ([0x0F62, 0x0F92, 0x0F66, 0x0F54], ascii ''gep''),
     ([0x0F66, 0x0F90, 0x0F74], ascii ''ku''),
     ([0x0F40, 0x0F74, 0x0F5D], ascii ''k'' @ [0xFB])]"

text \<open>
  The script reads \<open>exceptions[trimmed]\<close> without \<open>hasOwnProperty\<close>, so a name that
  every object inherits from \<open>Object.prototype\<close> reads as a function or an object,
  which is true as a condition and is returned as it is.
\<close>

definition inheritedKeys :: "jsstring list" where
  "inheritedKeys =
    [ascii ''constructor'', ascii ''hasOwnProperty'', ascii ''isPrototypeOf'',
     ascii ''propertyIsEnumerable'', ascii ''toLocaleString'', ascii ''toString'',
     ascii ''valueOf'', ascii ''__proto__'', ascii ''__defineGetter__'',
     ascii ''__defineSetter__'', ascii ''__lookupGetter__'', ascii ''__lookupSetter__'']"

record decomposition' =
  baseInitial' :: "jsstring option"
  vowelSign' :: jsstring
  longMarkPresent :: bool
  hasPrefix' :: bool
  hasSubjoined :: bool
  finalChar' :: "jsstring option"

definition findVowelSign' :: "jsstring list \<Rightarrow> jsstring \<times> jsstring list" where
  "findVowelSign' remaining =
     (case find (\<lambda>v. v \<noteq> [] \<and> v \<in> set remaining) (map fst vowelSigns) of
        Some v \<Rightarrow> (v, remove1 v remaining)
      | None \<Rightarrow> ([], remaining))"

text \<open>
  \<open>decomposeSyllable\<close>. The filter removes the tsheg, the space and the four shad
  marks; the loop for the prefix runs over every index but the last.
\<close>

definition decomposeSyllable :: "jsstring \<Rightarrow> decomposition'" where
  "decomposeSyllable syll =
     (let cleaned =
            filter (\<lambda>c. c \<noteq> [0x0F0B] \<and> c \<noteq> [0x20] \<and> c \<noteq> [0x0F0D] \<and> c \<noteq> [0x0F0E] \<and>
                        c \<noteq> [0x0F0F] \<and> c \<noteq> [0x0F14])
              (arrayFrom syll);
          lm = LONG_MARK \<in> set cleaned;
          (vs, remaining) = findVowelSign' (filter (\<lambda>ch. ch \<noteq> LONG_MARK) cleaned)
      in \<lparr>baseInitial' = find (\<lambda>ch. map_of initialMap ch \<noteq> None) remaining,
          vowelSign' = vs,
          longMarkPresent = lm,
          hasPrefix' = list_ex (\<lambda>ch. ch \<in> set prefixChars) (butlast remaining),
          hasSubjoined = list_ex (\<lambda>ch. ch \<in> set subjoinedChars) remaining,
          finalChar' = find (truthyAt finalMap) (rev remaining)\<rparr>)"

text \<open>
  \<open>replace(/^[tsheg \s]+|[tsheg \s]+$/g, '')\<close>: the run of tshegs and white space at the
  start and the one at the end are removed.
\<close>

definition stripEnds :: "jsstring \<Rightarrow> jsstring" where
  "stripEnds s = rev (dropWhile isSeparator (rev (dropWhile isSeparator s)))"

text \<open>
  \<open>convertSyllable\<close> of this script. The result \<open>None\<close> is a value inherited from
  \<open>Object.prototype\<close>, which is not a string.
\<close>

definition convertSyllable' :: "jsstring \<Rightarrow> jsstring option" where
  "convertSyllable' syll =
     (if syll = [] then Some []
      else let trimmed = stripEnds (trim syll) in
        if truthyAt exceptions trimmed then map_of exceptions trimmed
        else if trimmed \<in> set inheritedKeys then None
        else let decomp = decomposeSyllable trimmed in
          case baseInitial' decomp of
            None \<Rightarrow> Some trimmed
          | Some bi \<Rightarrow>
              let preferHard = (hasPrefix' decomp \<or> hasSubjoined decomp);
                  initialRoman =
                    (case map_of initialMap bi of
                       Some initialInfo \<Rightarrow> if preferHard then hard initialInfo else soft initialInfo
                     | None \<Rightarrow> bi);
                  vowelRoman = lookupOr vowelSigns (vowelSign' decomp) (ascii ''a'');
                  finalIsNg = (finalChar' decomp = Some [0x0F44]);
                  vowelRoman =
                    (if longMarkPresent decomp \<and> \<not> finalIsNg
                     then lookupOr circ vowelRoman vowelRoman else vowelRoman);
                  finalRoman =
                    (case finalChar' decomp of
                       Some f \<Rightarrow> if f \<noteq> [] then lookupOr finalMap f [] else []
                     | None \<Rightarrow> [])
              in Some (initialRoman @ vowelRoman @ finalRoman))"

section \<open>Vocabulary of the proofs\<close>

text \<open>
  A Roman string of ASCII code units without the apostrophe. Every phoneme of the tables
  of the first converter is one, the whole-syllable hint apart.
\<close>

definition plain :: "jsstring \<Rightarrow> bool" where
  "plain s \<longleftrightarrow> list_all (\<lambda>c. c < 0x80 \<and> c \<noteq> 0x27) s"

text \<open>
  An output item of the token scan belongs to a segment of the token list: a single
  token and its conversion, or a window of two or three tokens and the exception stored
  for their joined, normalized text.
\<close>

abbreviation emits :: "jsstring list \<Rightarrow> jsstring \<Rightarrow> bool" where
  "emits seg item \<equiv>
     (\<exists>t. seg = [t] \<and> item = convertSyllable t) \<or>
     (length seg \<in> {2, 3} \<and> EXCEPTIONS (normalizeKey (concat seg)) = Some item)"

section \<open>The tables\<close>

text \<open>
  No object literal repeats a key, so reading the association list from the front is
  reading the object.
\<close>

lemma table_keys_distinct:
  "distinct (map fst INITIAL_BASE)" "distinct (map fst VOWELS)" "distinct (map fst FINAL_MAP)"
  "distinct (map fst MEDIALS)" "distinct (map fst CLUSTER_INITIAL_MAP)" "distinct (map fst circ)"
  by (simp_all add: INITIAL_BASE_def VOWELS_def FINAL_MAP_def MEDIALS_def CLUSTER_INITIAL_MAP_def
        circ_def ascii_def)

lemma extended_table_keys_distinct:
  "distinct (map fst initialMap)" "distinct (map fst vowelSigns)" "distinct (map fst finalMap)"
  "distinct (map fst exceptions)" "distinct subjoinedChars"
  by (simp_all add: initialMap_def vowelSigns_def finalMap_def exceptions_def subjoinedChars_def)

lemma dictionary_table_keys_distinct:
  "distinct (map fst ROOT)" "distinct (map fst SUB)" "distinct (map fst VOWEL)"
  "distinct (map fst FINAL)" "distinct (map fst DICT)"
  by (simp_all add: ROOT_def SUB_def VOWEL_def FINAL_def DICT_def ascii_def)

text \<open>The keys of the cluster table, longest first, equal lengths in the order of the table.\<close>

lemma clusterKeys_sorted:
  "clusterKeys =
     [[0x0F56, 0x0F62, 0x0F92, 0x0FB1],
      [0x0F56, 0x0F62, 0x0F92], [0x0F62, 0x0F92, 0x0FB1], [0x0F66, 0x0F92, 0x0FB2],
      [0x0F66, 0x0FA6, 0x0FB1],
      [0x0F42, 0x0FB1], [0x0F42, 0x0FB2], [0x0F63, 0x0FB7], [0x0F66, 0x0FB3]]"
  by (simp add: clusterKeys_def CLUSTER_INITIAL_MAP_def)

section \<open>The normalizer\<close>

lemma trim_id: "\<forall>c\<in>set s. \<not> isWhiteSpace c \<Longrightarrow> trim s = s"
proof -
  assume h: "\<forall>c\<in>set s. \<not> isWhiteSpace c"
  have d: "dropWhile isWhiteSpace t = t" if "\<forall>c\<in>set t. \<not> isWhiteSpace c" for t
    using that by (cases t) auto
  show ?thesis unfolding trim_def using h by (simp add: d)
qed

lemma isPunctOrSpace_ws: "isWhiteSpace c \<Longrightarrow> isPunctOrSpace c"
  by (simp add: isPunctOrSpace_def)

text \<open>
  After the two replacements nothing is left for \<open>trim\<close> to remove, so the normalizer is a
  single filter.
\<close>

lemma normalizeKey_filter:
  "normalizeKey s = filter (\<lambda>c. \<not> isPunctOrSpace c \<and> c \<noteq> 0x0F0B) s"
proof (cases "s = []")
  case True
  then show ?thesis by (simp add: normalizeKey_def)
next
  case False
  have "trim (filter (\<lambda>c. \<not> isPunctOrSpace c) (filter (\<lambda>c. c \<noteq> 0x0F0B) s))
        = filter (\<lambda>c. \<not> isPunctOrSpace c) (filter (\<lambda>c. c \<noteq> 0x0F0B) s)"
    by (rule trim_id) (auto dest: isPunctOrSpace_ws)
  with False show ?thesis by (simp add: normalizeKey_def conj_commute)
qed

lemma normalizeKey_idem: "normalizeKey (normalizeKey s) = normalizeKey s"
  by (simp add: normalizeKey_filter)

lemma normalizeKey_no_ws: "c \<in> set (normalizeKey s) \<Longrightarrow> \<not> isWhiteSpace c"
  by (auto simp: normalizeKey_filter dest: isPunctOrSpace_ws)

lemma trim_normalizeKey: "trim (normalizeKey s) = normalizeKey s"
  by (rule trim_id) (auto dest: normalizeKey_no_ws)

text \<open>
  Claim C9. Normalizing twice is the same as normalizing once: \<open>normalizeKey\<close> applied to
  its own result returns that result unchanged, for every string.
\<close>

theorem normalizeKey_idempotent: "normalizeKey (normalizeKey s) = normalizeKey s"
  by (simp add: normalizeKey_filter)

section \<open>The exception table\<close>

lemmas exception_eval =
  EXCEPTIONS_def EXCEPTION_CALLS_def addException_def normalizeKey_filter
  isPunctOrSpace_def isWhiteSpace_def ascii_def

lemma fold_addException_dom:
  "fold (\<lambda>(u, r). addException u r) calls m k = Some v \<Longrightarrow>
     m k = Some v \<or> (\<exists>u. k = normalizeKey u)"
proof (induction calls arbitrary: m)
  case Nil
  then show ?case by simp
next
  case (Cons call calls)
  obtain u r where call: "call = (u, r)" by (cases call)
  from Cons.prems have "fold (\<lambda>(u, r). addException u r) calls (addException u r m) k = Some v"
    by (simp add: call)
  then have "addException u r m k = Some v \<or> (\<exists>u. k = normalizeKey u)"
    by (rule Cons.IH)
  then show ?case
    by (cases "k = normalizeKey u") (auto simp: addException_def)
qed

lemma EXCEPTIONS_key_normalized: "EXCEPTIONS k = Some v \<Longrightarrow> normalizeKey k = k"
  unfolding EXCEPTIONS_def
  by (drule fold_addException_dom) (auto simp: normalizeKey_idem)

lemma EXCEPTIONS_Nil: "EXCEPTIONS [] = None"
  by (simp add: exception_eval)

text \<open>
  Claim C1. For every key \<open>k\<close> of the exception table with value \<open>v\<close>,
  \<open>convertDzongkhaText k\<close> returns exactly \<open>v\<close>: the keys are stored normalized, the
  whole-text lookup normalizes its input, and it runs before the token scan.
\<close>

theorem exception_key_converts: "EXCEPTIONS k = Some v \<Longrightarrow> convertDzongkhaText k = v"
proof -
  assume h: "EXCEPTIONS k = Some v"
  then have n: "normalizeKey k = k" by (rule EXCEPTIONS_key_normalized)
  from h have ne: "k \<noteq> []" using EXCEPTIONS_Nil by auto
  have t: "trim k = k" using trim_normalizeKey [of k] n by simp
  show ?thesis using h n ne t by (simp add: convertDzongkhaText_def)
qed

text \<open>The key \<open>sku\<close>, stored with the value \<open>ku\<close>.\<close>

theorem exception_key_converts_witness:
  "EXCEPTIONS [0x0F66, 0x0F90, 0x0F74] = Some (ascii ''ku'') \<and>
   convertDzongkhaText [0x0F66, 0x0F90, 0x0F74] = ascii ''ku''"
proof -
  have h: "EXCEPTIONS [0x0F66, 0x0F90, 0x0F74] = Some (ascii ''ku'')"
    by (simp add: exception_eval)
  show ?thesis using h exception_key_converts [OF h] by simp
qed

text \<open>
  The spellings as they are passed to \<open>addException\<close>, with their tshegs, convert to
  the Roman strings registered with them.
\<close>

lemma exception_spelling_converts:
  "list_all (\<lambda>(uScript, rom). convertDzongkhaText uScript = rom) EXCEPTION_CALLS"
  by (simp add: convertDzongkhaText_def trim_def exception_eval)

section \<open>The token scan\<close>

lemmas syllable_eval =
  convertSyllable_def trim_def isWhiteSpace_def normToken_def normalizeKey_filter
  isPunctOrSpace_def EXCEPTIONS_def EXCEPTION_CALLS_def addException_def findClusterMap_def
  clusterKeys_def CLUSTER_INITIAL_MAP_def decomposeSyllableRaw_def syllableChars_def TSHEG_def
  LONG_MARK_def findVowelSign_def VOWELS_def truthyAt_def INITIAL_BASE_def PREFIX_SET_def
  MEDIALS_def FINAL_MAP_def ruleConvert_def initialRomanOf_def hardOverride_def devoice_def
  wholeHint_def hintRoman_def isPartialHint_def DEVOICE_CANDIDATES_def appendMedials_def
  vowelRomanOf_def lookupOr_def circ_def finalRomanOf_def ascii_def isHighSurrogate_def
  isLowSurrogate_def sublist_code suffix_to_prefix Let_def

lemmas text_eval =
  convertDzongkhaText_def tokenize_def isSeparator_def tryWindow_def windowMatch_def
  tokenLoop.simps

lemma tokenLoop_done: "\<not> i < length toks \<Longrightarrow> tokenLoop toks i out = out"
  by (simp add: tokenLoop.simps)

lemma tokenLoop_window:
  "i < length toks \<Longrightarrow> windowMatch toks i = Some (v, w) \<Longrightarrow>
   tokenLoop toks i out = tokenLoop toks (i + w) (out @ [v])"
  by (simp add: tokenLoop.simps [of toks i])

lemma tokenLoop_single:
  "i < length toks \<Longrightarrow> windowMatch toks i = None \<Longrightarrow>
   tokenLoop toks i out = tokenLoop toks (i + 1) (out @ [convertSyllable (toks ! i)])"
  by (simp add: tokenLoop.simps [of toks i])

lemma tokenLoop_acc: "tokenLoop toks i out = out @ tokenLoop toks i []"
proof (induction "length toks - i" arbitrary: i out rule: less_induct)
  case less
  show ?case
  proof (cases "i < length toks")
    case False
    then show ?thesis by (simp add: tokenLoop_done)
  next
    case True
    show ?thesis
    proof (cases "windowMatch toks i")
      case None
      from True have m: "length toks - (i + 1) < length toks - i" by arith
      show ?thesis
        using less [OF m, of "out @ [convertSyllable (toks ! i)]"]
              less [OF m, of "[convertSyllable (toks ! i)]"]
        by (simp add: tokenLoop_single [OF True None])
    next
      case (Some p)
      obtain v w where p: "windowMatch toks i = Some (v, w)" using Some by (cases p) simp
      from windowMatch_width [OF p] True have m: "length toks - (i + w) < length toks - i"
        by arith
      show ?thesis
        using less [OF m, of "out @ [v]"] less [OF m, of "[v]"]
        by (simp add: tokenLoop_window [OF True p])
    qed
  qed
qed

lemma tryWindow_drop:
  "0 < w \<Longrightarrow> tryWindow (drop j toks) i w = tryWindow toks (i + j) w"
  by (auto simp: tryWindow_def add.commute)

lemma windowMatch_drop: "windowMatch (drop j toks) i = windowMatch toks (i + j)"
proof -
  have "tryWindow (drop j toks) i 3 = tryWindow toks (i + j) 3"
    and "tryWindow (drop j toks) i 2 = tryWindow toks (i + j) 2"
    by (simp_all add: tryWindow_drop)
  then show ?thesis by (simp add: windowMatch_def split: option.split)
qed

lemma tokenLoop_drop: "tokenLoop (drop j toks) i out = tokenLoop toks (i + j) out"
proof (induction "length toks - (i + j)" arbitrary: i out rule: less_induct)
  case less
  show ?case
  proof (cases "i + j < length toks")
    case False
    then show ?thesis by (simp add: tokenLoop_done)
  next
    case True
    then have T': "i < length (drop j toks)" by simp
    show ?thesis
    proof (cases "windowMatch toks (i + j)")
      case None
      then have N': "windowMatch (drop j toks) i = None" by (simp add: windowMatch_drop)
      from True have m: "length toks - (i + 1 + j) < length toks - (i + j)" by arith
      have e: "drop j toks ! i = toks ! (i + j)" using True by (simp add: add.commute)
      show ?thesis
        using less [OF m]
        by (simp add: tokenLoop_single [OF True None] tokenLoop_single [OF T' N'] e)
    next
      case (Some p)
      obtain v w where p: "windowMatch toks (i + j) = Some (v, w)" using Some by (cases p) simp
      then have p': "windowMatch (drop j toks) i = Some (v, w)" by (simp add: windowMatch_drop)
      from windowMatch_width [OF p] True
      have m: "length toks - (i + w + j) < length toks - (i + j)" by arith
      show ?thesis
        using less [OF m]
        by (simp add: tokenLoop_window [OF True p] tokenLoop_window [OF T' p'] add.assoc add.commute [of w j])
    qed
  qed
qed

lemma windowMatch_Some:
  "windowMatch toks i = Some (v, w) \<Longrightarrow>
     (w = 3 \<or> w = 2) \<and> i + w \<le> length toks \<and>
     EXCEPTIONS (normalizeKey (concat (take w (drop i toks)))) = Some v"
  by (auto simp: windowMatch_def tryWindow_def split: option.splits if_splits)

lemma tokenLoop_segments:
  "i \<le> length toks \<Longrightarrow>
     \<exists>segs. concat segs = drop i toks \<and> list_all2 emits segs (tokenLoop toks i [])"
proof (induction "length toks - i" arbitrary: i rule: less_induct)
  case less
  show ?case
  proof (cases "i < length toks")
    case False
    with less.prems have "drop i toks = []" by simp
    moreover from False have "tokenLoop toks i [] = []" by (simp add: tokenLoop_done)
    ultimately have "concat [] = drop i toks \<and> list_all2 emits [] (tokenLoop toks i [])"
      by simp
    then show ?thesis by blast
  next
    case True
    show ?thesis
    proof (cases "windowMatch toks i")
      case None
      from True have m: "length toks - (i + 1) < length toks - i" and b: "i + 1 \<le> length toks"
        by arith+
      from less.hyps [OF m b] obtain segs where
        s: "concat segs = drop (i + 1) toks" "list_all2 emits segs (tokenLoop toks (i + 1) [])"
        by blast
      have out: "tokenLoop toks i [] = convertSyllable (toks ! i) # tokenLoop toks (i + 1) []"
        using tokenLoop_single [OF True None, of "[]"]
              tokenLoop_acc [of toks "i + 1" "[convertSyllable (toks ! i)]"] by simp
      have c: "concat ([toks ! i] # segs) = drop i toks"
        using s(1) True by (simp add: Cons_nth_drop_Suc)
      have "list_all2 emits ([toks ! i] # segs) (tokenLoop toks i [])"
        using s(2) by (simp add: out)
      with c show ?thesis by blast
    next
      case (Some p)
      obtain v w where p: "windowMatch toks i = Some (v, w)" using Some by (cases p) simp
      from windowMatch_Some [OF p] have w: "w = 3 \<or> w = 2" and b: "i + w \<le> length toks"
        and e: "EXCEPTIONS (normalizeKey (concat (take w (drop i toks)))) = Some v"
        by simp_all
      from w True have m: "length toks - (i + w) < length toks - i" by arith
      from less.hyps [OF m b] obtain segs where
        s: "concat segs = drop (i + w) toks" "list_all2 emits segs (tokenLoop toks (i + w) [])"
        by blast
      have out: "tokenLoop toks i [] = v # tokenLoop toks (i + w) []"
        using tokenLoop_window [OF True p, of "[]"] tokenLoop_acc [of toks "i + w" "[v]"] by simp
      have l: "length (take w (drop i toks)) = w" using b by simp
      have c: "concat (take w (drop i toks) # segs) = drop i toks"
        using s(1) by (simp add: add.commute [of i w] flip: drop_drop)
      have "list_all2 emits (take w (drop i toks) # segs) (tokenLoop toks i [])"
        using s(2) e w l by (auto simp: out)
      with c show ?thesis by blast
    qed
  qed
qed

lemma tokenLoop_length: "length (tokenLoop toks i []) \<le> length toks - i"
proof (induction "length toks - i" arbitrary: i rule: less_induct)
  case less
  show ?case
  proof (cases "i < length toks")
    case False
    then show ?thesis by (simp add: tokenLoop_done)
  next
    case True
    show ?thesis
    proof (cases "windowMatch toks i")
      case None
      from True have m: "length toks - (i + 1) < length toks - i" by arith
      have out: "tokenLoop toks i [] = convertSyllable (toks ! i) # tokenLoop toks (i + 1) []"
        using tokenLoop_single [OF True None, of "[]"]
              tokenLoop_acc [of toks "i + 1" "[convertSyllable (toks ! i)]"] by simp
      show ?thesis using less [OF m] True by (simp add: out)
    next
      case (Some p)
      obtain v w where p: "windowMatch toks i = Some (v, w)" using Some by (cases p) simp
      from windowMatch_Some [OF p] have w: "w = 3 \<or> w = 2" and b: "i + w \<le> length toks"
        by simp_all
      from w True have m: "length toks - (i + w) < length toks - i" by arith
      have out: "tokenLoop toks i [] = v # tokenLoop toks (i + w) []"
        using tokenLoop_window [OF True p, of "[]"] tokenLoop_acc [of toks "i + w" "[v]"] by simp
      show ?thesis using less [OF m] True w b by (auto simp: out)
    qed
  qed
qed

text \<open>
  Claim C2. Longest window first: when the scan stands at cursor \<open>i\<close> and both the
  three-token window and the two-token window starting there are exception keys, the
  three-token match is the one chosen, its stored Roman string is pushed on the output,
  and the cursor advances by exactly three tokens.
\<close>

theorem longest_window_first:
  assumes "tryWindow toks i 3 = Some v3" and "tryWindow toks i 2 = Some v2"
  shows "windowMatch toks i = Some (v3, 3) \<and>
         tokenLoop toks i out = tokenLoop toks (i + 3) (out @ [v3])"
proof -
  from assms(1) have b: "i + 3 \<le> length toks"
    by (simp add: tryWindow_def split: if_splits)
  then have lt: "i < length toks" by arith
  have m: "windowMatch toks i = Some (v3, 3)"
    using assms(1) by (simp add: windowMatch_def)
  show ?thesis using m tokenLoop_window [OF lt m] by simp
qed

text \<open>
  The tokens \<open>bkra\<close>, \<open>shis\<close>, a shad and \<open>ka\<close>: the shad is removed by the
  normalizer, so the windows of width 3 and of width 2 are both the key \<open>bkra shis\<close>.
  The shad is consumed with the match; it is not converted as a token of its own.
\<close>

theorem longest_window_first_witness:
  "tryWindow [[0x0F56, 0x0F40, 0x0FB2], [0x0F64, 0x0F72, 0x0F66], [0x0F0D], [0x0F40]] 0 3
     = Some (ascii ''Trashi'') \<and>
   tryWindow [[0x0F56, 0x0F40, 0x0FB2], [0x0F64, 0x0F72, 0x0F66], [0x0F0D], [0x0F40]] 0 2
     = Some (ascii ''Trashi'') \<and>
   tokenLoop [[0x0F56, 0x0F40, 0x0FB2], [0x0F64, 0x0F72, 0x0F66], [0x0F0D], [0x0F40]] 0 []
     = [ascii ''Trashi'', ascii ''kak'']"
proof -
  let ?T = "[[0x0F56, 0x0F40, 0x0FB2], [0x0F64, 0x0F72, 0x0F66], [0x0F0D], [0x0F40::nat]]"
  have h3: "tryWindow ?T 0 3 = Some (ascii ''Trashi'')"
    by (simp add: tryWindow_def exception_eval)
  have h2: "tryWindow ?T 0 2 = Some (ascii ''Trashi'')"
    by (simp add: tryWindow_def exception_eval)
  have r: "tokenLoop ?T (0 + 3) ([] @ [ascii ''Trashi'']) = [ascii ''Trashi'', ascii ''kak'']"
    by (simp add: text_eval syllable_eval)
  show ?thesis
    using h3 h2 longest_window_first [OF h3 h2, of "[]"] r by simp
qed

text \<open>
  Claim C10. The token scan terminates on every token list (\<open>tokenLoop\<close> is a total
  function: its termination proof is the measure \<open>length rawTokens - i\<close>, which every
  iteration decreases because the cursor advances by 3, 2 or 1). The token list is cut
  into consecutive segments of one, two or three tokens, each segment produces exactly
  one output item (the conversion of the single token, or the exception stored for the
  joined window), and so the output has no more items than there are tokens.
\<close>

theorem token_scan_consumes_each_token_once:
  "\<exists>segs. concat segs = toks \<and>
      list_all2
        (\<lambda>seg item.
           (\<exists>t. seg = [t] \<and> item = convertSyllable t) \<or>
           (length seg \<in> {2, 3} \<and> EXCEPTIONS (normalizeKey (concat seg)) = Some item))
        segs (tokenLoop toks 0 []) \<and>
      length (tokenLoop toks 0 []) \<le> length toks"
  using tokenLoop_segments [of 0 toks] tokenLoop_length [of toks 0] by simp

theorem token_scan_consumes_each_token_once_witness:
  "length (tokenLoop [[0x0F56, 0x0F40, 0x0FB2], [0x0F64, 0x0F72, 0x0F66], [0x0F0D], [0x0F40]] 0 [])
     \<le> 4"
  using token_scan_consumes_each_token_once
    [of "[[0x0F56, 0x0F40, 0x0FB2], [0x0F64, 0x0F72, 0x0F66], [0x0F0D], [0x0F40]]"]
  by (elim exE conjE) simp

section \<open>The rule-based path of \<open>convertSyllable\<close>\<close>

lemma convertSyllable_rule:
  assumes "syll \<noteq> []" and "raw = trim syll" and "raw \<noteq> []"
    and "EXCEPTIONS (normToken raw) = None"
    and "clmap = findClusterMap raw" and "\<not> wholeHint clmap"
    and "dec = decomposeSyllableRaw raw" and "baseInitial dec = Some bi"
  shows "convertSyllable syll = ruleConvert clmap dec bi"
  using assms by (simp add: convertSyllable_def Let_def)

lemma lookupOr_in_table:
  "truthyAt tbl k \<Longrightarrow> (k, lookupOr tbl k d) \<in> set tbl"
  by (auto simp: truthyAt_def lookupOr_def split: option.splits dest: map_of_SomeD)

lemma INITIAL_BASE_plain: "(k, v) \<in> set INITIAL_BASE \<Longrightarrow> plain v"
  by (auto simp: INITIAL_BASE_def plain_def ascii_def)

lemma INITIAL_BASE_key:
  "(k, v) \<in> set INITIAL_BASE \<Longrightarrow> \<exists>c. k = [c] \<and> 0x0F40 \<le> c \<and> c \<le> 0x0F68"
  by (auto simp: INITIAL_BASE_def)

lemma MEDIALS_plain: "(k, v) \<in> set MEDIALS \<Longrightarrow> plain v"
  by (auto simp: MEDIALS_def plain_def ascii_def)

lemma FINAL_MAP_plain: "(k, v) \<in> set FINAL_MAP \<Longrightarrow> plain v"
  by (auto simp: FINAL_MAP_def plain_def ascii_def)

lemma VOWELS_plain: "(k, v) \<in> set VOWELS \<Longrightarrow> plain v"
  by (auto simp: VOWELS_def plain_def ascii_def)

lemma findClusterMap_in_table:
  "findClusterMap s = Some c \<Longrightarrow> \<exists>k. (k, c) \<in> set CLUSTER_INITIAL_MAP \<and> sublist k s"
  by (auto simp: findClusterMap_def find_Some_iff split: option.splits dest: map_of_SomeD)

lemma partial_hint_plain:
  "(k, c) \<in> set CLUSTER_INITIAL_MAP \<Longrightarrow> \<not> whole c \<Longrightarrow> plain (roman c)"
  by (auto simp: CLUSTER_INITIAL_MAP_def plain_def ascii_def)

lemma whole_hint_key:
  "(k, c) \<in> set CLUSTER_INITIAL_MAP \<Longrightarrow> whole c \<Longrightarrow> k = [0x0F56, 0x0F62, 0x0F92, 0x0FB1]"
  by (auto simp: CLUSTER_INITIAL_MAP_def)

lemma initialRomanOf_plain:
  assumes "truthyAt INITIAL_BASE bi" and "clmap = findClusterMap raw"
  shows "plain (initialRomanOf bi clmap)"
proof (cases "isPartialHint clmap")
  case True
  then obtain c where c: "clmap = Some c" "\<not> whole c"
    by (auto simp: isPartialHint_def wholeHint_def split: option.splits)
  with assms(2) obtain k where "(k, c) \<in> set CLUSTER_INITIAL_MAP"
    using findClusterMap_in_table [of raw c] by auto
  with c have "plain (roman c)" by (auto dest: partial_hint_plain)
  with True c show ?thesis by (simp add: initialRomanOf_def hintRoman_def)
next
  case False
  with assms(1) show ?thesis
    by (auto simp: initialRomanOf_def dest: lookupOr_in_table INITIAL_BASE_plain)
qed

lemma plain_no_apostrophe: "plain s \<Longrightarrow> \<not> suffix [0x27] s"
  by (auto simp: plain_def suffix_def list_all_iff)

lemma baseInitial_truthy:
  "baseInitial (decomposeSyllableRaw raw) = Some bi \<Longrightarrow> truthyAt INITIAL_BASE bi"
  by (auto simp: decomposeSyllableRaw_def Let_def find_Some_iff split: prod.splits)

lemma plain_append: "plain (a @ b) \<longleftrightarrow> plain a \<and> plain b"
  by (simp add: plain_def)

lemma appendMedials_plain:
  "plain ini \<Longrightarrow> \<forall>m\<in>set ms. plain m \<Longrightarrow> plain (appendMedials ini ms)"
  unfolding appendMedials_def
  by (induction ms arbitrary: ini) (auto simp: plain_append)

lemma map_filter_set:
  "y \<in> set (List.map_filter f xs) \<longleftrightarrow> (\<exists>x\<in>set xs. f x = Some y)"
  by (induction xs) (auto split: option.splits)

lemma medialsFound_plain:
  "m \<in> set (medialsFound (decomposeSyllableRaw raw)) \<Longrightarrow> plain m"
  by (cases "findVowelSign (filter (\<lambda>ch. ch \<noteq> LONG_MARK) (syllableChars raw))")
     (auto simp: decomposeSyllableRaw_def Let_def map_filter_set split: if_splits
           dest!: map_of_SomeD MEDIALS_plain)

lemma find_Some_mem: "find P xs = Some x \<Longrightarrow> x \<in> set xs \<and> P x"
  by (auto simp: find_Some_iff)

lemma findVowelSign_key: "fst (findVowelSign cleaned) \<in> set (map fst VOWELS)"
proof (cases "find (\<lambda>v. v \<noteq> [] \<and> v \<in> set cleaned) (map fst VOWELS)")
  case None
  then show ?thesis by (simp add: findVowelSign_def VOWELS_def)
next
  case (Some v)
  then have "v \<in> set (map fst VOWELS)" by (rule find_Some_mem [THEN conjunct1])
  with Some show ?thesis by (simp add: findVowelSign_def)
qed

lemma vowelSign_key: "vowelSign (decomposeSyllableRaw raw) \<in> set (map fst VOWELS)"
  using findVowelSign_key [of "filter (\<lambda>ch. ch \<noteq> LONG_MARK) (syllableChars raw)"]
  by (cases "findVowelSign (filter (\<lambda>ch. ch \<noteq> LONG_MARK) (syllableChars raw))")
     (simp add: decomposeSyllableRaw_def Let_def)

lemma appendMedials_set:
  "set (appendMedials ini ms) \<subseteq> set ini \<union> \<Union> (set ` set ms)"
proof (induction ms arbitrary: ini)
  case Nil
  then show ?case by (simp add: appendMedials_def)
next
  case (Cons m ms)
  let ?ini = "if \<not> suffix m ini then ini @ m else ini"
  have "appendMedials ini (m # ms) = appendMedials ?ini ms"
    by (simp add: appendMedials_def)
  moreover have "set (appendMedials ?ini ms) \<subseteq> set ?ini \<union> \<Union> (set ` set ms)"
    by (rule Cons.IH)
  moreover have "set ?ini \<subseteq> set ini \<union> set m" by auto
  ultimately show ?case by auto
qed

lemma vowel_phoneme_plain: "vs \<in> set (map fst VOWELS) \<Longrightarrow> plain (lookupOr VOWELS vs (ascii ''a''))"
  by (auto simp: VOWELS_def lookupOr_def plain_def ascii_def)

lemma vowel_phoneme_circ:
  "vs \<in> set (map fst VOWELS) \<Longrightarrow>
     \<exists>cv. map_of circ (lookupOr VOWELS vs (ascii ''a'')) = Some cv \<and> cv \<noteq> [] "
  by (auto simp: VOWELS_def lookupOr_def circ_def ascii_def)

lemma finalRomanOf_plain: "plain (finalRomanOf fc)"
proof (cases fc)
  case None
  then show ?thesis by (simp add: finalRomanOf_def plain_def)
next
  case (Some f)
  show ?thesis
  proof (cases "truthyAt FINAL_MAP f")
    case True
    then have "plain (lookupOr FINAL_MAP f [])"
      by (auto dest: lookupOr_in_table FINAL_MAP_plain)
    with Some show ?thesis by (simp add: finalRomanOf_def plain_def)
  next
    case False
    then have "lookupOr FINAL_MAP f [] = []"
      by (auto simp: truthyAt_def lookupOr_def split: option.splits)
    with Some show ?thesis by (simp add: finalRomanOf_def plain_def)
  qed
qed

lemma devoice_marker:
  "\<not> suffix [0x27] ini \<Longrightarrow>
   devoice hp bi ini = ini @ (if bi \<in> set DEVOICE_CANDIDATES \<and> \<not> hp then [0x27] else [])"
  by (simp add: devoice_def)




lemmas extended_eval =
  convertSyllable'_def decomposeSyllable_def findVowelSign'_def stripEnds_def isSeparator_def
  initialMap_def vowelSigns_def prefixChars_def subjoinedChars_def finalMap_def exceptions_def
  inheritedKeys_def




text \<open>
  The long-vowel rule in terms of the final that the decomposition reports: with the long
  mark and a reported final other than \<open>nga\<close> the vowel phoneme is replaced by its
  circumflexed letter; with the long mark and the reported final \<open>nga\<close> the result has
  no circumflexed vowel.
\<close>

lemma long_vowel_rule_by_finalChar:
  assumes "syll \<noteq> []" and "raw = trim syll" and "raw \<noteq> []"
    and "EXCEPTIONS (normToken raw) = None"
    and "clmap = findClusterMap raw" and "\<not> wholeHint clmap"
    and "dec = decomposeSyllableRaw raw" and "baseInitial dec = Some bi"
    and "longMark dec"
  shows "(finalChar dec \<noteq> Some [0x0F44] \<longrightarrow>
            (\<exists>cv. (lookupOr VOWELS (vowelSign dec) (ascii ''a''), cv)
                    \<in> {(ascii ''a'', [0xE2]), (ascii ''e'', [0xEA]), (ascii ''i'', [0xEE]),
                       (ascii ''o'', [0xF4]), (ascii ''u'', [0xFB])} \<and>
               convertSyllable syll =
                 appendMedials
                   (devoice (hasPrefix dec \<or> hardOverride clmap) bi (initialRomanOf bi clmap))
                   (medialsFound dec)
                 @ cv @ finalRomanOf (finalChar dec))) \<and>
         (finalChar dec = Some [0x0F44] \<longrightarrow>
            set (convertSyllable syll) \<inter> {0xE2, 0xEA, 0xEE, 0xF4, 0xFB} = {})"
proof -
  have t: "truthyAt INITIAL_BASE bi"
    using assms(7,8) baseInitial_truthy by simp
  have r: "convertSyllable syll = ruleConvert clmap dec bi"
    using assms(1-8) by (rule convertSyllable_rule)
  have vk: "vowelSign dec \<in> set (map fst VOWELS)"
    using assms(7) vowelSign_key by simp
  have long: ?thesis if "finalChar dec \<noteq> Some [0x0F44]"
  proof -
    from vowel_phoneme_circ [OF vk] obtain cv where
      cv: "map_of circ (lookupOr VOWELS (vowelSign dec) (ascii ''a'')) = Some cv" "cv \<noteq> []"
      by blast
    then have "lookupOr circ (lookupOr VOWELS (vowelSign dec) (ascii ''a''))
                 (lookupOr VOWELS (vowelSign dec) (ascii ''a'')) = cv"
      by (simp add: lookupOr_def [of circ])
    then have "vowelRomanOf (vowelSign dec) (longMark dec) (finalChar dec) = cv"
      using that assms(9) by (simp add: vowelRomanOf_def Let_def)
    moreover from cv(1) have "(lookupOr VOWELS (vowelSign dec) (ascii ''a''), cv) \<in> set circ"
      by (rule map_of_SomeD)
    then have "(lookupOr VOWELS (vowelSign dec) (ascii ''a''), cv)
                 \<in> {(ascii ''a'', [0xE2]), (ascii ''e'', [0xEA]), (ascii ''i'', [0xEE]),
                    (ascii ''o'', [0xF4]), (ascii ''u'', [0xFB])}"
      by (simp add: circ_def)
    ultimately show ?thesis
      using that by (auto simp: r ruleConvert_def Let_def)
  qed
  have ng: ?thesis if f: "finalChar dec = Some [0x0F44]"
  proof -
    have v: "vowelRomanOf (vowelSign dec) (longMark dec) (finalChar dec)
               = lookupOr VOWELS (vowelSign dec) (ascii ''a'')"
      using f by (simp add: vowelRomanOf_def Let_def)
    have p1: "plain (initialRomanOf bi clmap)"
      using initialRomanOf_plain [OF t assms(5)] .
    have d: "set (devoice (hasPrefix dec \<or> hardOverride clmap) bi (initialRomanOf bi clmap))
               \<subseteq> set (initialRomanOf bi clmap) \<union> {0x27}"
      by (auto simp: devoice_def)
    have m: "\<forall>m\<in>set (medialsFound dec). plain m"
      using assms(7) medialsFound_plain by simp
    note a = appendMedials_set
    have lt: "\<forall>c \<in> set (convertSyllable syll). c < 0x80"
    proof
      fix c assume "c \<in> set (convertSyllable syll)"
      then consider
          "c \<in> set (appendMedials
             (devoice (hasPrefix dec \<or> hardOverride clmap) bi (initialRomanOf bi clmap))
             (medialsFound dec))"
        | "c \<in> set (lookupOr VOWELS (vowelSign dec) (ascii ''a''))"
        | "c \<in> set (finalRomanOf (finalChar dec))"
        by (auto simp: r ruleConvert_def Let_def v)
      then show "c < 0x80"
      proof cases
        case 1
        with a d have "c \<in> set (initialRomanOf bi clmap) \<or> c = 0x27 \<or>
                       (\<exists>m\<in>set (medialsFound dec). c \<in> set m)"
          by blast
        with p1 m show ?thesis by (auto simp: plain_def list_all_iff)
      next
        case 2
        with vowel_phoneme_plain [OF vk] show ?thesis by (auto simp: plain_def list_all_iff)
      next
        case 3
        with finalRomanOf_plain [of "finalChar dec"] show ?thesis
          by (auto simp: plain_def list_all_iff)
      qed
    qed
    have "set (convertSyllable syll) \<inter> {0xE2, 0xEA, 0xEE, 0xF4, 0xFB} = {}"
      using lt by fastforce
    with f show ?thesis by simp
  qed
  from long ng show ?thesis by blast
qed

text \<open>\<open>kha\<close> with the long mark; \<open>kha\<close> with the long mark and the final \<open>nga\<close>.\<close>

lemma long_vowel_rule_examples:
  "longMark (decomposeSyllableRaw [0x0F41, 0x0F71]) \<and>
   finalChar (decomposeSyllableRaw [0x0F41, 0x0F71]) = None \<and>
   convertSyllable [0x0F41, 0x0F71] = ascii ''kh'' @ [0xE2] \<and>
   longMark (decomposeSyllableRaw [0x0F41, 0x0F71, 0x0F44]) \<and>
   finalChar (decomposeSyllableRaw [0x0F41, 0x0F71, 0x0F44]) = Some [0x0F44] \<and>
   set (convertSyllable [0x0F41, 0x0F71, 0x0F44]) \<inter> {0xE2, 0xEA, 0xEE, 0xF4, 0xFB} = {}"
proof -
  let ?a = "[0x0F41, 0x0F71] :: jsstring" and ?b = "[0x0F41, 0x0F71, 0x0F44] :: jsstring"
  have a: "?a \<noteq> []" "?a = trim ?a" "EXCEPTIONS (normToken ?a) = None"
      "None = findClusterMap ?a" "\<not> wholeHint None"
      "baseInitial (decomposeSyllableRaw ?a) = Some [0x0F41]"
      "longMark (decomposeSyllableRaw ?a)" "finalChar (decomposeSyllableRaw ?a) = None"
    by (simp_all add: syllable_eval)
  have b: "?b \<noteq> []" "?b = trim ?b" "EXCEPTIONS (normToken ?b) = None"
      "None = findClusterMap ?b"
      "baseInitial (decomposeSyllableRaw ?b) = Some [0x0F41]"
      "longMark (decomposeSyllableRaw ?b)" "finalChar (decomposeSyllableRaw ?b) = Some [0x0F44]"
    by (simp_all add: syllable_eval)
  have c: "lookupOr VOWELS (vowelSign (decomposeSyllableRaw ?a)) (ascii ''a'') = ascii ''a''"
      "map_of circ (ascii ''a'') = Some [0xE2]"
      "hasPrefix (decomposeSyllableRaw ?a) = False" "hardOverride None = False"
      "medialsFound (decomposeSyllableRaw ?a) = []"
      "devoice False [0x0F41] (initialRomanOf [0x0F41] None) = ascii ''kh''"
    by (simp_all add: syllable_eval)
  from long_vowel_rule_by_finalChar [OF a(1,2) a(1) a(3,4,5) refl a(6,7)]
  have 1: "convertSyllable ?a = ascii ''kh'' @ [0xE2]"
    unfolding c(1) by (auto simp: a(8) c(3-6) appendMedials_def finalRomanOf_def ascii_def)
  from long_vowel_rule_by_finalChar [OF b(1,2) b(1) b(3,4) a(5) refl b(5,6)]
  have 2: "set (convertSyllable ?b) \<inter> {0xE2, 0xEA, 0xEE, 0xF4, 0xFB} = {}"
    by (simp add: b(7))
  from 1 2 a(7,8) b(6,7) show ?thesis by simp
qed

text \<open>
  Claim C4. A syllable with the long-vowel mark should have its vowel circumflexed unless
  its final is \<open>nga\<close>. The syllable \<open>nga\<close> with the long-vowel mark has no final; both
  converters take the head itself as the final, find it to be \<open>nga\<close>, leave the vowel
  without circumflex and append the final, and return \<open>ngang\<close>.
\<close>

theorem long_vowel_nga_head:
  "syllableChars [0x0F44, 0x0F71] = [[0x0F44], [0x0F71]] \<and>
   longMark (decomposeSyllableRaw [0x0F44, 0x0F71]) = True \<and>
   baseInitial (decomposeSyllableRaw [0x0F44, 0x0F71]) = Some [0x0F44] \<and>
   finalChar (decomposeSyllableRaw [0x0F44, 0x0F71]) = Some [0x0F44] \<and>
   convertSyllable [0x0F44, 0x0F71] = ascii ''ngang'' \<and>
   finalChar' (decomposeSyllable [0x0F44, 0x0F71]) = Some [0x0F44] \<and>
   convertSyllable' [0x0F44, 0x0F71] = Some (ascii ''ngang'')"
  by (simp add: syllable_eval extended_eval)

text \<open>
  Claim C5, as the code has it. On the rule-based path, a syllable whose decomposition has
  a head, no medial, no vowel sign, no final and no prefix flag converts to the initial's
  Roman form (the phoneme of the head in \<open>INITIAL_BASE\<close>, or the cluster hint when a
  partial cluster key occurs in the syllable), followed by the devoicing apostrophe when
  the head is in the voiced set and no hard override applies, followed by \<open>a\<close>
  (circumflexed when the long-vowel mark is present).
\<close>

theorem bare_head_syllable:
  assumes "syll \<noteq> []" and "raw = trim syll" and "raw \<noteq> []"
    and "EXCEPTIONS (normToken raw) = None"
    and "clmap = findClusterMap raw" and "\<not> wholeHint clmap"
    and "dec = decomposeSyllableRaw raw" and "baseInitial dec = Some bi"
    and "medialsFound dec = []" and "vowelSign dec = []" and "finalChar dec = None"
    and "\<not> hasPrefix dec"
  shows "convertSyllable syll =
           initialRomanOf bi clmap
           @ (if bi \<in> set DEVOICE_CANDIDATES \<and> \<not> hardOverride clmap then [0x27] else [])
           @ (if longMark dec then [0xE2] else ascii ''a'')"
proof -
  have t: "truthyAt INITIAL_BASE bi"
    using assms(7,8) baseInitial_truthy by simp
  have n: "\<not> suffix [0x27] (initialRomanOf bi clmap)"
    using initialRomanOf_plain [OF t assms(5)] by (rule plain_no_apostrophe)
  have v: "vowelRomanOf [] (longMark dec) None = (if longMark dec then [0xE2] else ascii ''a'')"
    by (simp add: vowelRomanOf_def lookupOr_def VOWELS_def circ_def ascii_def)
  have "convertSyllable syll = ruleConvert clmap dec bi"
    using assms(1-8) by (rule convertSyllable_rule)
  then show ?thesis
    using n assms(9-12) v
    by (simp add: ruleConvert_def Let_def devoice_marker appendMedials_def finalRomanOf_def)
qed

text \<open>The syllable \<open>zha\<close> alone.\<close>

theorem bare_head_syllable_witness:
  "baseInitial (decomposeSyllableRaw [0x0F5E]) = Some [0x0F5E] \<and>
   medialsFound (decomposeSyllableRaw [0x0F5E]) = [] \<and>
   vowelSign (decomposeSyllableRaw [0x0F5E]) = [] \<and>
   finalChar (decomposeSyllableRaw [0x0F5E]) = None \<and>
   convertSyllable [0x0F5E] = ascii ''zh'' @ [0x27] @ ascii ''a''"
proof -
  let ?a = "[0x0F5E] :: jsstring"
  have a: "?a \<noteq> []" "?a = trim ?a" "EXCEPTIONS (normToken ?a) = None"
      "None = findClusterMap ?a" "\<not> wholeHint None"
      "baseInitial (decomposeSyllableRaw ?a) = Some [0x0F5E]"
      "medialsFound (decomposeSyllableRaw ?a) = []" "vowelSign (decomposeSyllableRaw ?a) = []"
      "finalChar (decomposeSyllableRaw ?a) = None" "\<not> hasPrefix (decomposeSyllableRaw ?a)"
    by (simp_all add: syllable_eval)
  have c: "initialRomanOf [0x0F5E] None = ascii ''zh''" "[0x0F5E] \<in> set DEVOICE_CANDIDATES"
      "\<not> hardOverride None" "\<not> longMark (decomposeSyllableRaw ?a)"
    by (simp_all add: syllable_eval)
  from bare_head_syllable [OF a(1,2) a(1) a(3,4,5) refl a(6,7,8,9,10)]
  have "convertSyllable ?a = ascii ''zh'' @ [0x27] @ ascii ''a''"
    by (simp add: c)
  with a show ?thesis by simp
qed

text \<open>
  The claim as stated fails on \<open>ga\<close> alone: the decomposition has the head and nothing
  else, the head's phoneme is \<open>g\<close>, and the result carries the devoicing apostrophe.
\<close>

theorem bare_head_counterexample:
  "baseInitial (decomposeSyllableRaw [0x0F42]) = Some [0x0F42] \<and>
   medialsFound (decomposeSyllableRaw [0x0F42]) = [] \<and>
   vowelSign (decomposeSyllableRaw [0x0F42]) = [] \<and>
   finalChar (decomposeSyllableRaw [0x0F42]) = None \<and>
   hasPrefix (decomposeSyllableRaw [0x0F42]) = False \<and>
   lookupOr INITIAL_BASE [0x0F42] [0x0F42] = ascii ''g'' \<and>
   convertSyllable [0x0F42] = ascii ''g'' @ [0x27] @ ascii ''a'' \<and>
   convertSyllable [0x0F42] \<noteq> lookupOr INITIAL_BASE [0x0F42] [0x0F42] @ ascii ''a''"
  by (simp add: syllable_eval Let_def suffix_to_prefix)

text \<open>
  The scan for the final starts at the last element of the same array the head was found
  in, so a lone head letter that is also a key of \<open>FINAL_MAP\<close> is emitted twice.
\<close>

lemma lone_final_letter_doubles:
  "baseInitial (decomposeSyllableRaw [0x0F40]) = Some [0x0F40] \<and>
   finalChar (decomposeSyllableRaw [0x0F40]) = Some [0x0F40] \<and>
   convertSyllable [0x0F40] = ascii ''kak'' \<and>
   convertSyllable [0x0F63, 0x0FB7] = ascii ''lhal''"
  by (simp add: syllable_eval Let_def suffix_to_prefix)

section \<open>Syllables without a head\<close>

lemma arrayFrom_single:
  "c \<in> set s \<Longrightarrow> \<not> isHighSurrogate c \<Longrightarrow> \<not> isLowSurrogate c \<Longrightarrow> [c] \<in> set (arrayFrom s)"
  by (induction s rule: arrayFrom.induct) auto

lemma head_letter_range:
  "truthyAt INITIAL_BASE [c] \<Longrightarrow> 0x0F40 \<le> c \<and> c \<le> 0x0F68"
  by (auto dest!: lookupOr_in_table [where d = "[]"] INITIAL_BASE_key)

lemma head_letter_found:
  assumes "c \<in> set raw" and "truthyAt INITIAL_BASE [c]"
  shows "baseInitial (decomposeSyllableRaw raw) \<noteq> None"
proof -
  from assms(2) have r: "0x0F40 \<le> c" "c \<le> 0x0F68" using head_letter_range by auto
  then have "[c] \<in> set (arrayFrom raw)"
    using assms(1) by (intro arrayFrom_single) (simp_all add: isHighSurrogate_def isLowSurrogate_def)
  moreover have "[c] \<noteq> TSHEG" "\<not> list_ex isPunctOrSpace [c]" "[c] \<noteq> LONG_MARK"
    using r by (auto simp: TSHEG_def LONG_MARK_def isPunctOrSpace_def isWhiteSpace_def)
  ultimately have m: "[c] \<in> set (filter (\<lambda>ch. ch \<noteq> LONG_MARK) (syllableChars raw))"
    by (simp add: syllableChars_def)
  obtain vs cleaned where
    f: "findVowelSign (filter (\<lambda>ch. ch \<noteq> LONG_MARK) (syllableChars raw)) = (vs, cleaned)"
    by (cases "findVowelSign (filter (\<lambda>ch. ch \<noteq> LONG_MARK) (syllableChars raw))")
  have "vs \<in> set (map fst VOWELS)" using findVowelSign_key [of "filter (\<lambda>ch. ch \<noteq> LONG_MARK) (syllableChars raw)"] f by simp
  then have "vs \<noteq> [c]" using r by (auto simp: VOWELS_def)
  moreover have "cleaned = filter (\<lambda>ch. ch \<noteq> LONG_MARK) (syllableChars raw) \<or>
                 cleaned = remove1 vs (filter (\<lambda>ch. ch \<noteq> LONG_MARK) (syllableChars raw))"
    using f by (auto simp: findVowelSign_def split: option.splits)
  ultimately have "[c] \<in> set cleaned" using m by auto
  then have "find (truthyAt INITIAL_BASE) cleaned \<noteq> None"
    using assms(2) by (auto simp: find_None_iff)
  then show ?thesis using f by (simp add: decomposeSyllableRaw_def Let_def)
qed

lemma EXCEPTIONS_key_has_head:
  "EXCEPTIONS k = Some v \<Longrightarrow> list_ex (\<lambda>c. truthyAt INITIAL_BASE [c]) k"
  by (simp add: exception_eval truthyAt_def INITIAL_BASE_def split: if_splits)

lemma normalizeKey_subset: "set (normalizeKey s) \<subseteq> set s"
  by (auto simp: normalizeKey_filter)

lemma wholeHint_has_head:
  assumes "wholeHint (findClusterMap raw)"
  shows "0x0F56 \<in> set raw"
proof -
  from assms obtain c where c: "findClusterMap raw = Some c" "whole c"
    by (auto simp: wholeHint_def split: option.splits)
  then obtain k where k: "(k, c) \<in> set CLUSTER_INITIAL_MAP" "sublist k raw"
    using findClusterMap_in_table by blast
  with c have "k = [0x0F56, 0x0F62, 0x0F92, 0x0FB1]" by (auto dest: whole_hint_key)
  with k(2) show ?thesis by (auto simp: sublist_def)
qed

lemma headless_fallback:
  assumes "raw = trim syll" and "raw \<noteq> []"
    and "baseInitial (decomposeSyllableRaw raw) = None"
  shows "convertSyllable syll = (if normToken raw \<noteq> [] then normToken raw else raw)"
proof -
  have ne: "syll \<noteq> []" using assms(1,2) by (auto simp: trim_def)
  have e: "EXCEPTIONS (normToken raw) = None"
  proof (rule ccontr)
    assume "EXCEPTIONS (normToken raw) \<noteq> None"
    then obtain v where "EXCEPTIONS (normalizeKey raw) = Some v" by (auto simp: normToken_def)
    then obtain c where "c \<in> set (normalizeKey raw)" "truthyAt INITIAL_BASE [c]"
      by (auto dest!: EXCEPTIONS_key_has_head simp: list_ex_iff)
    then have "baseInitial (decomposeSyllableRaw raw) \<noteq> None"
      using normalizeKey_subset [of raw] by (intro head_letter_found [of c]) auto
    with assms(3) show False by simp
  qed
  have w: "\<not> wholeHint (findClusterMap raw)"
  proof
    assume "wholeHint (findClusterMap raw)"
    then have "0x0F56 \<in> set raw" by (rule wholeHint_has_head)
    moreover have "truthyAt INITIAL_BASE [0x0F56]" by (simp add: truthyAt_def INITIAL_BASE_def ascii_def)
    ultimately have "baseInitial (decomposeSyllableRaw raw) \<noteq> None" by (rule head_letter_found)
    with assms(3) show False by simp
  qed
  show ?thesis using ne assms e w by (simp add: convertSyllable_def Let_def)
qed

lemma splitRuns_no_separator:
  "\<forall>c\<in>set cur. \<not> isSeparator c \<Longrightarrow> t \<in> set (splitRuns b cur s) \<Longrightarrow> c \<in> set t \<Longrightarrow> \<not> isSeparator c"
  by (induction b cur s rule: splitRuns.induct) (auto split: if_splits)

lemma tokenize_token:
  assumes "t \<in> set (tokenize s)"
  shows "t \<noteq> [] \<and> trim t = t"
proof -
  from assms have "t \<noteq> []" and m: "t \<in> set (splitRuns False [] s)" by (auto simp: tokenize_def)
  moreover have "\<forall>c\<in>set t. \<not> isWhiteSpace c"
    using splitRuns_no_separator [OF _ m] by (auto simp: isSeparator_def)
  ultimately show ?thesis by (simp add: trim_id)
qed

text \<open>
  Claim C8, as the code has it. A token of the scan that no multi-token window consumes
  and in which the decomposition finds no head is replaced, in its own output position,
  by its normalized text when that is not empty and by the token itself otherwise; the
  item is never empty. The items before it are kept and the tokens after it are
  converted as a token list of their own.
\<close>

theorem headless_token_fallback:
  assumes "toks = tokenize trimmed" and "i < length toks" and "windowMatch toks i = None"
    and "t = toks ! i" and "baseInitial (decomposeSyllableRaw t) = None"
  shows "tokenLoop toks i out =
           out @ [if normToken t \<noteq> [] then normToken t else t]
               @ tokenLoop (drop (i + 1) toks) 0 []
         \<and> (if normToken t \<noteq> [] then normToken t else t) \<noteq> []"
proof -
  have "t \<in> set (tokenize trimmed)" using assms(1,2,4) by simp
  then have t: "t \<noteq> []" "trim t = t" using tokenize_token by auto
  have c: "convertSyllable t = (if normToken t \<noteq> [] then normToken t else t)"
    using t assms(5) by (intro headless_fallback) simp_all
  have "tokenLoop toks i out = tokenLoop toks (i + 1) (out @ [convertSyllable (toks ! i)])"
    using assms(2,3) by (rule tokenLoop_single)
  also have "\<dots> = (out @ [convertSyllable (toks ! i)]) @ tokenLoop toks (i + 1) []"
    by (rule tokenLoop_acc)
  also have "tokenLoop toks (i + 1) [] = tokenLoop (drop (i + 1) toks) 0 []"
    using tokenLoop_drop [of "i + 1" toks 0 "[]"] by simp
  finally show ?thesis using c t(1) assms(4) by simp
qed

text \<open>
  The tokens \<open>ka\<close> and the letter x followed by a shad: the second has no head and is
  emitted as its normalized text, the letter x.
\<close>

theorem headless_token_fallback_witness:
  "tokenize [0x0F40, 0x20, 0x78, 0x0F0D] = [[0x0F40], [0x78, 0x0F0D]] \<and>
   windowMatch [[0x0F40], [0x78, 0x0F0D]] 1 = None \<and>
   baseInitial (decomposeSyllableRaw [0x78, 0x0F0D]) = None \<and>
   tokenLoop [[0x0F40], [0x78, 0x0F0D]] 1 [ascii ''kak''] = [ascii ''kak'', ascii ''x'']"
proof -
  let ?toks = "[[0x0F40], [0x78, 0x0F0D]] :: jsstring list"
  have a: "?toks = tokenize [0x0F40, 0x20, 0x78, 0x0F0D]" "1 < length ?toks"
      "windowMatch ?toks 1 = None" "[0x78, 0x0F0D] = ?toks ! 1"
      "baseInitial (decomposeSyllableRaw [0x78, 0x0F0D]) = None"
    by (simp_all add: text_eval syllable_eval)
  have b: "normToken [0x78, 0x0F0D] = ascii ''x''"
      "tokenLoop (drop (1 + 1) ?toks) 0 [] = []"
    by (simp_all add: text_eval syllable_eval)
  from headless_token_fallback [OF a, of "[ascii ''kak'']"]
  have "tokenLoop ?toks 1 [ascii ''kak''] = [ascii ''kak'', ascii ''x'']"
    by (simp add: b tokenLoop_done ascii_def)
  with a show ?thesis by simp
qed

text \<open>
  The claim as stated fails on a token that is only a shad: its normalized text is empty
  and the token itself is emitted. It fails again on a headless token that a window
  consumes: the subjoined \<open>ka\<close> with the vowel sign \<open>u\<close>, after the token \<open>sa\<close>, is
  part of the exception \<open>sku\<close> and is not emitted at all.
\<close>

theorem headless_token_counterexample:
  "baseInitial (decomposeSyllableRaw [0x0F0D]) = None \<and>
   normToken [0x0F0D] = [] \<and>
   convertSyllable [0x0F0D] = [0x0F0D] \<and>
   convertDzongkhaText [0x0F40, 0x20, 0x0F0D] = ascii ''kak '' @ [0x0F0D] \<and>
   baseInitial (decomposeSyllableRaw [0x0F90, 0x0F74]) = None \<and>
   normToken [0x0F90, 0x0F74] = [0x0F90, 0x0F74] \<and>
   tokenize [0x0F66, 0x20, 0x0F90, 0x0F74, 0x20, 0x0F40] = [[0x0F66], [0x0F90, 0x0F74], [0x0F40]] \<and>
   convertDzongkhaText [0x0F66, 0x20, 0x0F90, 0x0F74, 0x20, 0x0F40] = ascii ''ku kak''"
  by (simp add: text_eval syllable_eval)

section \<open>The vowel sign of a syllable\<close>














section \<open>The spelling of \<open>'brug\<close>\<close>

lemmas dict_eval =
  convertDzongkha_def reinsertMarks.simps convertLine_def splitSyllables_def tokenizeSyllable_def
  buildRomanFromToken_def endsWithVowelLetter_def normalizeWord_def applyRules_def DICT_def
  replaceStart_def replaceWhole_def replaceEnd_def ROOT_def SUB_def VOWEL_def FINAL_def
  SHAD_def NYIS_def TSEC_def truthyAt_def lookupOr_def trim_def isWhiteSpace_def
  isHighSurrogate_def isLowSurrogate_def ascii_def suffix_to_prefix Let_def

text \<open>
  Claim C7. The single syllable \<open>'a ba ra-btags u ga\<close>, the spelling of \<open>'brug\<close>,
  should convert to the Roman string \<open>'druk\<close> (a right single quotation mark, then
  \<open>druk\<close>). Neither converter returns it. \<open>convertSyllable\<close>, and with it
  \<open>convertDzongkhaText\<close>, takes the first letter as the head, finds the prefix flag set
  and no final, and returns \<open>aru\<close>. \<open>convertDzongkha\<close> classifies \<open>ba\<close> as a
  final and writes the stack before the finals, so the raw word is \<open>'rubg\<close>, which
  neither the dictionary entry nor the rule for \<open>'brug\<close> matches.
\<close>

theorem brug_conversion:
  "convertSyllable [0x0F60, 0x0F56, 0x0FB2, 0x0F74, 0x0F42] = ascii ''aru'' \<and>
   convertDzongkhaText [0x0F60, 0x0F56, 0x0FB2, 0x0F74, 0x0F42] = ascii ''aru'' \<and>
   convertDzongkha [0x0F60, 0x0F56, 0x0FB2, 0x0F74, 0x0F42] = [0x2019] @ ascii ''rubg''"
proof -
  have "convertSyllable [0x0F60, 0x0F56, 0x0FB2, 0x0F74, 0x0F42] = ascii ''aru''"
    by (simp add: syllable_eval)
  moreover
  have "convertDzongkhaText [0x0F60, 0x0F56, 0x0FB2, 0x0F74, 0x0F42] = ascii ''aru''"
    by (simp add: text_eval syllable_eval)
  moreover
  have "convertDzongkha [0x0F60, 0x0F56, 0x0FB2, 0x0F74, 0x0F42] = [0x2019] @ ascii ''rubg''"
    by (simp add: dict_eval)
  ultimately show ?thesis by simp
qed

end
